theory Spec2Isabelle
  imports Main "HOL-Library.Sublist"
begin

unbundle bit_operations_syntax

section \<open>The AIDL front end of \<^verbatim>\<open>aidl.cpp\<close>\<close>

text \<open>
  A shallow embedding of the validation pipeline of \<^verbatim>\<open>src/aidl.cpp\<close>: the filename
  check, the type check of an interface, the method-id check, the reader and the writer of
  preprocessed declaration files, and the driver \<^verbatim>\<open>load_and_validate_aidl\<close> with its
  two compile tasks.

  Conventions. A C++ \<^verbatim>\<open>int\<close> is an \<^typ>\<open>int\<close> (no computation of the file comes near
  \<open>2^31\<close>: counters count methods of one interface and lines of one file). A
  \<^verbatim>\<open>std::string\<close> is a \<^typ>\<open>string\<close>. Everything written to \<^verbatim>\<open>stderr\<close> or
  \<^verbatim>\<open>cerr\<close> by \<^verbatim>\<open>aidl.cpp\<close> itself is a value of \<open>diagnostic\<close>, collected in order. A function
  that mutates an object through a pointer returns the new object. The build modelled is
  the Linux one (\<^verbatim>\<open>__linux__\<close> defined, \<^verbatim>\<open>_WIN32\<close> not): the path separator is
  \<^verbatim>\<open>/\<close> and names compare case-sensitively.
\<close>

subsection \<open>The syntax tree (\<^verbatim>\<open>aidl_language.h\<close>, as \<^verbatim>\<open>aidl.cpp\<close> uses it)\<close>

text \<open>
  The classes of the syntax tree are declared outside \<^verbatim>\<open>src/\<close>; each record holds what
  \<^verbatim>\<open>aidl.cpp\<close> reads through the getters (\<^verbatim>\<open>GetName\<close>, \<^verbatim>\<open>GetLine\<close>, \<^verbatim>\<open>HasId\<close>, ...).
\<close>

record AidlType =
  type_name :: string

datatype direction = IN_DIR | OUT_DIR | INOUT_DIR

record AidlArgument =
  arg_type :: AidlType
  arg_direction :: direction
  arg_name :: string

text \<open>
  Modelled from the spec: \<^verbatim>\<open>AidlArgument::IsOut\<close> is declared in \<^verbatim>\<open>aidl_language.h\<close>, which
  is missing. The spec gives an argument a directionality in \<open>{in, out, inout}\<close> and forbids
  \<open>out\<close> and \<open>inout\<close> arguments to oneway methods through this test.
\<close>

definition IsOut :: "AidlArgument \<Rightarrow> bool" where
  "IsOut a = (arg_direction a = OUT_DIR \<or> arg_direction a = INOUT_DIR)"

record AidlMethod =
  m_oneway :: bool
  m_type :: AidlType
  m_name :: string
  m_arguments :: "AidlArgument list"
  m_has_id :: bool
  m_id :: int
  m_line :: int

text \<open>\<^verbatim>\<open>AidlMethod::SetId\<close> stores the id; \<^verbatim>\<open>HasId\<close> keeps what the parser set.\<close>

definition SetId :: "int \<Rightarrow> AidlMethod \<Rightarrow> AidlMethod" where
  "SetId newId m = m\<lparr>m_id := newId\<rparr>"

subsection \<open>Diagnostics\<close>

text \<open>One constructor for each message \<^verbatim>\<open>aidl.cpp\<close> prints, with the values it formats.\<close>

datatype diagnostic =
    ShouldBeDeclaredIn string int string string
  | OnewayCannotReturn string int string
  | OnewayCannotHaveOut string int string
  | RedefineMethod string int string int
  | DuplicateMethodId string int int string
  | OutOfBoundsId string int int string
  | IdMustBeBetween int int
  | AssignAllOrNone string
  | CantOpenPreprocessed string
  | BadTypeInLine string int string
  | FailedToGatherTypes
  | LineTooLong string int
  | ExpectsOneInterface
  | CouldntFindImport string int string
  | ErrorParsingImport string
  | InvalidPackageDeclaration string
  | CouldNotOpenForWrite string
  | ErrorWritingToFile string
  | CouldNotOpen string

subsection \<open>\<^verbatim>\<open>check_and_assign_method_ids\<close>\<close>

definition kMinUserSetMethodId :: int where
  "kMinUserSetMethodId = 0"

definition kMaxUserSetMethodId :: int where
  "kMaxUserSetMethodId = 16777214"

text \<open>
  The first loop. \<open>Inl\<close> is a \<^verbatim>\<open>return 1\<close> from inside the loop, with what was printed;
  \<open>Inr\<close> is the pair \<open>(hasUnassignedIds, hasAssignedIds)\<close> when the loop runs to its end.
  The test \<^verbatim>\<open>hasAssignedIds && hasUnassignedIds\<close> that ends every iteration is written
  in each branch with the flag that branch has just set.
\<close>

fun check_ids ::
  "string \<Rightarrow> AidlMethod list \<Rightarrow> int set \<Rightarrow> bool \<Rightarrow> bool \<Rightarrow> diagnostic list + (bool \<times> bool)"
where
  "check_ids filename [] usedIds hasUnassignedIds hasAssignedIds =
     Inr (hasUnassignedIds, hasAssignedIds)"
| "check_ids filename (item # items) usedIds hasUnassignedIds hasAssignedIds =
     (if m_has_id item then
        (if m_id item \<in> usedIds then
           Inl [DuplicateMethodId filename (m_line item) (m_id item) (m_name item)]
         else if m_id item < kMinUserSetMethodId \<or> m_id item > kMaxUserSetMethodId then
           Inl [OutOfBoundsId filename (m_line item) (m_id item) (m_name item),
                IdMustBeBetween kMinUserSetMethodId kMaxUserSetMethodId]
         else if True \<and> hasUnassignedIds then
           Inl [AssignAllOrNone filename]
         else check_ids filename items (insert (m_id item) usedIds) hasUnassignedIds True)
      else
        (if hasAssignedIds \<and> True then
           Inl [AssignAllOrNone filename]
         else check_ids filename items usedIds True hasAssignedIds))"

text \<open>The second loop: \<^verbatim>\<open>item->SetId(newId++)\<close> over the vector.\<close>

fun assign_ids :: "int \<Rightarrow> AidlMethod list \<Rightarrow> AidlMethod list" where
  "assign_ids newId [] = []"
| "assign_ids newId (item # items) = SetId newId item # assign_ids (newId + 1) items"

text \<open>The result: the value returned, what was printed, and the methods afterwards.\<close>

definition check_and_assign_method_ids ::
  "string \<Rightarrow> AidlMethod list \<Rightarrow> int \<times> diagnostic list \<times> AidlMethod list"
where
  "check_and_assign_method_ids filename items =
     (case check_ids filename items {} False False of
        Inl printed \<Rightarrow> (1, printed, items)
      | Inr (hasUnassignedIds, hasAssignedIds) \<Rightarrow>
          (0, [], if hasUnassignedIds then assign_ids 0 items else items))"

subsection \<open>Declarations and the type namespace\<close>

record AidlInterface =
  i_name :: string
  i_line :: int
  i_oneway :: bool
  i_methods :: "AidlMethod list"
  i_package :: "string list"

record AidlParcelable =
  p_name :: string
  p_line :: int
  p_package :: "string list"

text \<open>
  Modelled from the spec: \<^verbatim>\<open>GetPackage\<close> of both declarations is declared in
  \<^verbatim>\<open>aidl_language.h\<close>, which is missing. Their constructors take the package as a vector
  of components and \<^verbatim>\<open>aidl.cpp\<close> reads it as one string; the spec's canonical string form of
  a qualified name puts \<^verbatim>\<open>.\<close> between the components.
\<close>

fun Join :: "string list \<Rightarrow> char \<Rightarrow> string" where
  "Join [] sep = []"
| "Join [s] sep = s"
| "Join (s # t # ss) sep = s @ sep # Join (t # ss) sep"

definition Interface_GetPackage :: "AidlInterface \<Rightarrow> string" where
  "Interface_GetPackage c = Join (i_package c) CHR ''.''"

definition Parcelable_GetPackage :: "AidlParcelable \<Rightarrow> string" where
  "Parcelable_GetPackage p = Join (p_package p) CHR ''.''"

text \<open>
  \<^verbatim>\<open>TypeNamespace\<close> is an abstract class whose methods the two back ends implement outside
  \<^verbatim>\<open>src/\<close>. The object's state is a value of \<open>'ts\<close>; the record holds the virtual
  methods \<^verbatim>\<open>aidl.cpp\<close> calls. A \<^verbatim>\<open>const\<close> method reads the state, the others return the new
  state beside their result.
\<close>

record 'ts TypeNamespace =
  HasType :: "'ts \<Rightarrow> string \<Rightarrow> bool"
  AddParcelableType :: "AidlParcelable \<Rightarrow> string \<Rightarrow> 'ts \<Rightarrow> bool \<times> 'ts"
  AddBinderType :: "AidlInterface \<Rightarrow> string \<Rightarrow> 'ts \<Rightarrow> bool \<times> 'ts"
  MaybeAddContainerType :: "string \<Rightarrow> 'ts \<Rightarrow> bool \<times> 'ts"
  IsValidPackage :: "'ts \<Rightarrow> string \<Rightarrow> bool"
  IsValidReturnType :: "'ts \<Rightarrow> AidlType \<Rightarrow> string \<Rightarrow> bool"
  IsValidArg :: "'ts \<Rightarrow> AidlArgument \<Rightarrow> int \<Rightarrow> string \<Rightarrow> bool"

subsection \<open>\<^verbatim>\<open>check_types\<close>\<close>

text \<open>
  The body of the inner loop, on the state \<open>(err, printed, types)\<close>. \<^verbatim>\<open>index\<close> is the
  variable the source passes to \<^verbatim>\<open>IsValidArg\<close>; the loop never increments it.
\<close>

definition check_argument ::
  "'ts TypeNamespace \<Rightarrow> string \<Rightarrow> AidlMethod \<Rightarrow> bool \<Rightarrow> int \<Rightarrow> AidlArgument \<Rightarrow>
   int \<times> diagnostic list \<times> 'ts \<Rightarrow> int \<times> diagnostic list \<times> 'ts"
where
  "check_argument ns filename m oneway index arg st =
     (case st of (err, printed, types) \<Rightarrow>
        (case MaybeAddContainerType ns (type_name (arg_type arg)) types of (added, types1) \<Rightarrow>
           (let err1 = (if \<not> added \<or> \<not> IsValidArg ns types1 arg index filename then 1 else err)
            in if oneway \<and> IsOut arg then
                 (1, printed @ [OnewayCannotHaveOut filename (m_line m) (m_name m)], types1)
               else (err1, printed, types1))))"

fun check_arguments ::
  "'ts TypeNamespace \<Rightarrow> string \<Rightarrow> AidlMethod \<Rightarrow> bool \<Rightarrow> int \<Rightarrow> AidlArgument list \<Rightarrow>
   int \<times> diagnostic list \<times> 'ts \<Rightarrow> int \<times> diagnostic list \<times> 'ts"
where
  "check_arguments ns filename m oneway index [] st = st"
| "check_arguments ns filename m oneway index (arg # args) st =
     check_arguments ns filename m oneway index args
       (check_argument ns filename m oneway index arg st)"

text \<open>
  The body of the outer loop, on the state \<open>(err, printed, types, method_names)\<close>;
  \<open>method_names\<close> is the \<^verbatim>\<open>std::map\<close> from a name to the first method declared with it.
\<close>

definition check_method ::
  "'ts TypeNamespace \<Rightarrow> string \<Rightarrow> AidlInterface \<Rightarrow> AidlMethod \<Rightarrow>
   int \<times> diagnostic list \<times> 'ts \<times> (string \<rightharpoonup> AidlMethod) \<Rightarrow>
   int \<times> diagnostic list \<times> 'ts \<times> (string \<rightharpoonup> AidlMethod)"
where
  "check_method ns filename c m st =
     (case st of (err, printed, types, method_names) \<Rightarrow>
        (let oneway = (m_oneway m \<or> i_oneway c) in
         case MaybeAddContainerType ns (type_name (m_type m)) types of (added, types1) \<Rightarrow>
           (let err1 = (if \<not> added \<or> \<not> IsValidReturnType ns types1 (m_type m) filename
                        then 1 else err);
                st2 = (if oneway \<and> type_name (m_type m) \<noteq> ''void'' then
                         (1, printed @ [OnewayCannotReturn filename (m_line m) (m_name m)], types1)
                       else (err1, printed, types1))
            in case check_arguments ns filename m oneway 1 (m_arguments m) st2 of
                 (err3, printed3, types3) \<Rightarrow>
                   (case method_names (m_name m) of
                      None \<Rightarrow> (err3, printed3, types3, method_names(m_name m \<mapsto> m))
                    | Some previous \<Rightarrow>
                        (1, printed3 @ [RedefineMethod filename (m_line m) (m_name m)
                                          (m_line previous)],
                         types3, method_names)))))"

fun check_methods ::
  "'ts TypeNamespace \<Rightarrow> string \<Rightarrow> AidlInterface \<Rightarrow> AidlMethod list \<Rightarrow>
   int \<times> diagnostic list \<times> 'ts \<times> (string \<rightharpoonup> AidlMethod) \<Rightarrow>
   int \<times> diagnostic list \<times> 'ts \<times> (string \<rightharpoonup> AidlMethod)"
where
  "check_methods ns filename c [] st = st"
| "check_methods ns filename c (m # ms) st =
     check_methods ns filename c ms (check_method ns filename c m st)"

text \<open>The result: the value returned, what was printed, and the namespace afterwards.\<close>

definition check_types ::
  "'ts TypeNamespace \<Rightarrow> string \<Rightarrow> AidlInterface \<Rightarrow> 'ts \<Rightarrow> int \<times> diagnostic list \<times> 'ts"
where
  "check_types ns filename c types =
     (case check_methods ns filename c (i_methods c) (0, [], types, Map.empty) of
        (err, printed, types', method_names) \<Rightarrow> (err, printed, types'))"

subsection \<open>What a whole pass of \<^verbatim>\<open>check_types\<close> amounts to\<close>

text \<open>
  These definitions say, without an error variable, what it means that every method and
  every argument is examined. A \<open>type_use\<close> is one place where the pass consults the
  namespace: the return type of a method, or one argument with a position.
\<close>

datatype type_use = ReturnUse AidlType | ArgumentUse AidlArgument int

fun use_name :: "type_use \<Rightarrow> string" where
  "use_name (ReturnUse ty) = type_name ty"
| "use_name (ArgumentUse arg index) = type_name (arg_type arg)"

fun use_valid :: "'ts TypeNamespace \<Rightarrow> 'ts \<Rightarrow> string \<Rightarrow> type_use \<Rightarrow> bool" where
  "use_valid ns types filename (ReturnUse ty) = IsValidReturnType ns types ty filename"
| "use_valid ns types filename (ArgumentUse arg index) = IsValidArg ns types arg index filename"

text \<open>
  From the source: the calls the body of the outer loop makes for one method, the return
  type and then every argument. The source hands \<^verbatim>\<open>IsValidArg\<close> the variable \<^verbatim>\<open>index\<close>,
  which it sets to 1 before the inner loop and never changes.
\<close>

definition calls_of_method :: "AidlMethod \<Rightarrow> type_use list" where
  "calls_of_method m = ReturnUse (m_type m) # map (\<lambda>arg. ArgumentUse arg 1) (m_arguments m)"





text \<open>The namespace after \<^verbatim>\<open>MaybeAddContainerType\<close> was called for each use in turn.\<close>

fun namespace_after :: "'ts TypeNamespace \<Rightarrow> type_use list \<Rightarrow> 'ts \<Rightarrow> 'ts" where
  "namespace_after ns [] types = types"
| "namespace_after ns (u # us) types =
     namespace_after ns us (snd (MaybeAddContainerType ns (use_name u) types))"

text \<open>Some use is refused: the container cannot be added, or the type is not valid there.\<close>

fun some_type_check_fails ::
  "'ts TypeNamespace \<Rightarrow> string \<Rightarrow> type_use list \<Rightarrow> 'ts \<Rightarrow> bool"
where
  "some_type_check_fails ns filename [] types = False"
| "some_type_check_fails ns filename (u # us) types =
     (\<not> fst (MaybeAddContainerType ns (use_name u) types) \<or>
      \<not> use_valid ns (snd (MaybeAddContainerType ns (use_name u) types)) filename u \<or>
      some_type_check_fails ns filename us
        (snd (MaybeAddContainerType ns (use_name u) types)))"

text \<open>
  The messages one method is due, given the methods declared before it: a oneway method
  that returns a value, one message for each \<open>out\<close> or \<open>inout\<close> argument of a oneway
  method, and a redefinition of an earlier name, with the line of its first declaration.
\<close>

definition effectively_oneway :: "AidlInterface \<Rightarrow> AidlMethod \<Rightarrow> bool" where
  "effectively_oneway c m = (m_oneway m \<or> i_oneway c)"

definition out_messages ::
  "string \<Rightarrow> AidlMethod \<Rightarrow> bool \<Rightarrow> AidlArgument list \<Rightarrow> diagnostic list"
where
  "out_messages filename m oneway args =
     concat (map (\<lambda>arg. if oneway \<and> IsOut arg
                        then [OnewayCannotHaveOut filename (m_line m) (m_name m)] else [])
               args)"

definition messages_of_method ::
  "string \<Rightarrow> AidlInterface \<Rightarrow> AidlMethod list \<Rightarrow> AidlMethod \<Rightarrow> diagnostic list"
where
  "messages_of_method filename c earlier m =
     (if effectively_oneway c m \<and> type_name (m_type m) \<noteq> ''void''
      then [OnewayCannotReturn filename (m_line m) (m_name m)] else []) @
     out_messages filename m (effectively_oneway c m) (m_arguments m) @
     (case find (\<lambda>e. m_name e = m_name m) earlier of
        None \<Rightarrow> []
      | Some previous \<Rightarrow> [RedefineMethod filename (m_line m) (m_name m) (m_line previous)])"

fun messages_of_methods ::
  "string \<Rightarrow> AidlInterface \<Rightarrow> AidlMethod list \<Rightarrow> AidlMethod list \<Rightarrow> diagnostic list"
where
  "messages_of_methods filename c earlier [] = []"
| "messages_of_methods filename c earlier (m # ms) =
     messages_of_method filename c earlier m @
     messages_of_methods filename c (earlier @ [m]) ms"

subsection \<open>\<^verbatim>\<open>check_filename\<close> and \<^verbatim>\<open>check_filenames\<close>\<close>

definition OS_PATH_SEPARATOR :: char where
  "OS_PATH_SEPARATOR = CHR ''/''"

text \<open>
  The string \<^verbatim>\<open>fn\<close>: the file name itself when it starts with the separator, the working
  directory joined to it otherwise. \<open>cwd\<close> is what \<^verbatim>\<open>getcwd\<close> returns, an absolute path and so
  not empty; the source reads \<^verbatim>\<open>fn[len-1]\<close> without a test, and the model appends the
  separator to an empty \<open>cwd\<close>. Strings hold no NUL character here: they come from the
  command line and from the lexer.
\<close>

definition absolute_filename :: "string \<Rightarrow> string \<Rightarrow> string" where
  "absolute_filename cwd filename =
     (if filename \<noteq> [] \<and> hd filename = OS_PATH_SEPARATOR then filename
      else (if cwd \<noteq> [] \<and> last cwd = OS_PATH_SEPARATOR then cwd
            else cwd @ [OS_PATH_SEPARATOR]) @ filename)"

text \<open>
  The string \<^verbatim>\<open>expected\<close>: the package and a dot when there is a package, every dot of that
  replaced by the separator, then the name up to its first dot, then \<^verbatim>\<open>.aidl\<close>.
\<close>

definition expected_filename :: "string \<Rightarrow> string \<Rightarrow> string" where
  "expected_filename package name =
     map (\<lambda>c. if c = CHR ''.'' then OS_PATH_SEPARATOR else c)
       (if package \<noteq> [] then package @ ''.'' else []) @
     takeWhile (\<lambda>c. c \<noteq> CHR ''.'') name @ ''.aidl''"

definition check_filename ::
  "string \<Rightarrow> string \<Rightarrow> string \<Rightarrow> string \<Rightarrow> int \<Rightarrow> bool \<times> diagnostic list"
where
  "check_filename cwd filename package name line =
     (let fn = absolute_filename cwd filename;
          expected = expected_filename package name;
          len = length fn;
          valid = (if len \<ge> length expected
                   then drop (len - length expected) fn = expected else False)
      in (valid, if \<not> valid then [ShouldBeDeclaredIn filename line name expected] else []))"

text \<open>
  A parsed document: one interface, or a parcelable followed by the parcelables reached
  through \<^verbatim>\<open>next\<close>. A null document is \<open>None\<close>.
\<close>

datatype AidlDocumentItem =
    INTERFACE_TYPE_BINDER AidlInterface
  | USER_DATA_TYPE AidlParcelable "AidlParcelable list"

fun check_parcelable_filenames ::
  "string \<Rightarrow> string \<Rightarrow> AidlParcelable list \<Rightarrow> bool \<times> diagnostic list \<Rightarrow> bool \<times> diagnostic list"
where
  "check_parcelable_filenames cwd filename [] st = st"
| "check_parcelable_filenames cwd filename (p # ps) (success, printed) =
     (case check_filename cwd filename (Parcelable_GetPackage p) (p_name p) (p_line p) of
        (valid, msgs) \<Rightarrow>
          check_parcelable_filenames cwd filename ps (success \<and> valid, printed @ msgs))"

fun check_filenames ::
  "string \<Rightarrow> string \<Rightarrow> AidlDocumentItem option \<Rightarrow> bool \<times> diagnostic list"
where
  "check_filenames cwd filename None = (True, [])"
| "check_filenames cwd filename (Some (INTERFACE_TYPE_BINDER c)) =
     check_filename cwd filename (Interface_GetPackage c) (i_name c) (i_line c)"
| "check_filenames cwd filename (Some (USER_DATA_TYPE p ps)) =
     check_parcelable_filenames cwd filename (p # ps) (True, [])"

text \<open>
  These two definitions are not taken from the source: they state the rule in the spec's
  words, on path components. The components of a path are the strings between its
  separators; a path's trailing components match a name when the last components of the
  path are the components of the name.
\<close>

fun split_at :: "char \<Rightarrow> string \<Rightarrow> string list" where
  "split_at sep [] = [[]]"
| "split_at sep (c # cs) =
     (if c = sep then [] # split_at sep cs
      else (case split_at sep cs of [] \<Rightarrow> [[c]] | w # ws \<Rightarrow> (c # w) # ws))"

definition path_components :: "string \<Rightarrow> string list" where
  "path_components path = split_at OS_PATH_SEPARATOR path"

definition tail_components_match :: "string \<Rightarrow> string \<Rightarrow> bool" where
  "tail_components_match path expected =
     (length (path_components expected) \<le> length (path_components path) \<and>
      drop (length (path_components path) - length (path_components expected))
        (path_components path) = path_components expected)"

subsection \<open>\<^verbatim>\<open>gather_types\<close>\<close>

fun gather_parcelables ::
  "'ts TypeNamespace \<Rightarrow> string \<Rightarrow> AidlParcelable list \<Rightarrow> bool \<times> 'ts \<Rightarrow> bool \<times> 'ts"
where
  "gather_parcelables ns filename [] st = st"
| "gather_parcelables ns filename (item # items) (success, types) =
     (case AddParcelableType ns item filename types of
        (added, types') \<Rightarrow> gather_parcelables ns filename items (success \<and> added, types'))"

fun gather_types ::
  "'ts TypeNamespace \<Rightarrow> string \<Rightarrow> AidlDocumentItem option \<Rightarrow> 'ts \<Rightarrow> bool \<times> 'ts"
where
  "gather_types ns filename None types = (True, types)"
| "gather_types ns filename (Some (INTERFACE_TYPE_BINDER c)) types =
     AddBinderType ns c filename types"
| "gather_types ns filename (Some (USER_DATA_TYPE p ps)) types =
     gather_parcelables ns filename (p # ps) (True, types)"

subsection \<open>The outside world\<close>

text \<open>
  What a run reads from outside \<^verbatim>\<open>aidl.cpp\<close>. \<open>getcwd\<close> is the working directory.
  \<open>fopen\<close> gives, for a file that opens for reading, its bytes and whether the stream ends
  in a read error instead of the end of the file. \<open>ParseFile\<close> is a \<^verbatim>\<open>Parser\<close> on the I/O
  delegate: \<open>None\<close> when \<^verbatim>\<open>ParseFile\<close> returns false, else the document and the imports
  the parser holds. \<open>FindImportFile\<close> is \<^verbatim>\<open>ImportResolver::FindImportFile\<close> for a list of
  import paths; it returns the empty string when it finds nothing. \<open>access\<close> tells whether
  a path exists, \<open>GetCodeWriter\<close> whether the delegate opens a writer for a path,
  \<open>open_succeeds\<close> whether \<^verbatim>\<open>open\<close> creates or truncates a path, and \<open>write_returns i s\<close> is
  what the \<open>i\<close>-th call of \<^verbatim>\<open>write\<close> of a run returns for the buffer \<open>s\<close>.
\<close>

record AidlImport =
  imp_from :: string
  imp_needed_class :: string
  imp_filename :: string
  imp_line :: int

record parsed =
  parsed_document :: "AidlDocumentItem option"
  parsed_imports :: "AidlImport list"

record world =
  getcwd :: string
  fopen :: "string \<Rightarrow> (string \<times> bool) option"
  ParseFile :: "string \<Rightarrow> parsed option"
  FindImportFile :: "string list \<Rightarrow> string \<Rightarrow> string"
  access :: "string \<Rightarrow> bool"
  GetCodeWriter :: "string \<Rightarrow> bool"
  open_succeeds :: "string \<Rightarrow> bool"
  write_returns :: "nat \<Rightarrow> string \<Rightarrow> int"

text \<open>
  The value of a call: what it returns, or undefined behaviour (a read of a buffer never
  written, a null pointer dereferenced), after which the model says nothing.
\<close>

datatype outcome = Returns int | UndefinedBehaviour

subsection \<open>\<^verbatim>\<open>parse_preprocessed_file\<close>\<close>

text \<open>
  The lines \<^verbatim>\<open>fgets(line, sizeof(line), f)\<close> yields in turn for a stream of bytes: a line
  ends with its newline, or after \<open>n - 1\<close> bytes when no newline came (\<open>n\<close> is \<^verbatim>\<open>sizeof(line)\<close>). \<open>acc\<close>
  is the line read so far.
\<close>

definition sizeof_line :: nat where
  "sizeof_line = 1024"

fun fgets_lines :: "nat \<Rightarrow> string \<Rightarrow> string \<Rightarrow> string list" where
  "fgets_lines n acc [] = (if acc = [] then [] else [acc])"
| "fgets_lines n acc (c # cs) =
     (if c = CHR 0x0A \<or> length acc + 1 = n - 1 then (acc @ [c]) # fgets_lines n [] cs
      else fgets_lines n (acc @ [c]) cs)"

text \<open>A buffer as the C string functions read it: the bytes before the first NUL.\<close>

definition c_str :: "string \<Rightarrow> string" where
  "c_str buf = takeWhile (\<lambda>c. c \<noteq> CHR 0x00) buf"

definition isspace :: "char \<Rightarrow> bool" where
  "isspace c = (c \<in> set [CHR '' '', CHR 0x09, CHR 0x0A, CHR 0x0B, CHR 0x0C, CHR 0x0D])"

text \<open>
  \<^verbatim>\<open>sscanf(line, "%s %[^; \r\n\t];", type, fullname)\<close>: what it stores in each buffer, \<open>None\<close>
  for a buffer it does not write. \<^verbatim>\<open>%s\<close> skips white space and takes the bytes up to the
  next white space; at the end of the input nothing is stored. The blank of the format
  skips white space; the scan set takes the bytes up to the first of \<^verbatim>\<open>;\<close>, blank, CR, LF and
  TAB, and stores nothing when there is none.
\<close>

definition sscanf_type_fullname :: "string \<Rightarrow> string option \<times> string option" where
  "sscanf_type_fullname line =
     (let s1 = dropWhile isspace line in
      if s1 = [] then (None, None)
      else
        (let ty = takeWhile (\<lambda>c. \<not> isspace c) s1;
             s2 = dropWhile isspace (dropWhile (\<lambda>c. \<not> isspace c) s1);
             fu = takeWhile (\<lambda>c. c \<notin> set [CHR '';'', CHR '' '', CHR 0x0D, CHR 0x0A, CHR 0x09]) s2
         in (Some ty, if fu = [] then None else Some fu)))"

text \<open>
  \<^verbatim>\<open>android::base::Split\<close> belongs to libbase, outside this repository: the string is cut
  at every delimiter, and the empty string has no parts.
\<close>

fun split_any :: "string \<Rightarrow> string \<Rightarrow> string list" where
  "split_any delimiters [] = [[]]"
| "split_any delimiters (c # cs) =
     (if c \<in> set delimiters then [] # split_any delimiters cs
      else (case split_any delimiters cs of [] \<Rightarrow> [[c]] | w # ws \<Rightarrow> (c # w) # ws))"

definition Split :: "string \<Rightarrow> string \<Rightarrow> string list" where
  "Split s delimiters = (if s = [] then [] else split_any delimiters s)"

text \<open>
  \<^verbatim>\<open>strrchr(fullname, '.')\<close> and the cut at it: the bytes before the last dot and the bytes
  after it, when there is a dot.
\<close>

definition strrchr_dot :: "string \<Rightarrow> (string \<times> string) option" where
  "strrchr_dot fullname =
     (if CHR ''.'' \<in> set fullname
      then Some (rev (tl (dropWhile (\<lambda>c. c \<noteq> CHR ''.'') (rev fullname))),
                 rev (takeWhile (\<lambda>c. c \<noteq> CHR ''.'') (rev fullname)))
      else None)"

text \<open>
  The state of the loop: \<^verbatim>\<open>lineno\<close>, the buffers \<^verbatim>\<open>type\<close> and \<^verbatim>\<open>fullname\<close> as C strings
  (\<open>None\<close> until something is written to them; both are declared outside the loop and keep
  their bytes from one line to the next), the namespace, and what was printed.
\<close>

record 'ts reader =
  lineno :: int
  type_buf :: "string option"
  fullname_buf :: "string option"
  reader_types :: 'ts
  reader_printed :: "diagnostic list"

text \<open>
  The package and the class name the loop cuts \<^verbatim>\<open>fullname\<close> into, and what is left in
  the buffer: \<open>(buffer, classname, package)\<close>.
\<close>

definition cut_fullname :: "string \<Rightarrow> string \<times> string \<times> string list" where
  "cut_fullname fullname =
     (case strrchr_dot fullname of
        Some (package_part, class_part) \<Rightarrow> (package_part, class_part, Split package_part ''.'')
      | None \<Rightarrow> (fullname, fullname, []))"

text \<open>The document the loop makes for a line, \<open>None\<close> for a type it does not know.\<close>

definition new_document ::
  "string \<Rightarrow> string \<Rightarrow> int \<Rightarrow> string list \<Rightarrow> AidlDocumentItem option"
where
  "new_document ty classname line package =
     (if ty = ''parcelable'' then
        Some (USER_DATA_TYPE \<lparr>p_name = classname, p_line = line, p_package = package\<rparr> [])
      else if ty = ''interface'' then
        Some (INTERFACE_TYPE_BINDER
                \<lparr>i_name = classname, i_line = line, i_oneway = False, i_methods = [],
                 i_package = package\<rparr>)
      else None)"

text \<open>
  The body of the loop on one line: \<open>Inl\<close> is a return from inside the loop (or undefined
  behaviour: \<^verbatim>\<open>strrchr\<close> or \<^verbatim>\<open>strcmp\<close> on a buffer never written), \<open>Inr\<close> the state for the
  next line.
\<close>

definition read_line ::
  "'ts TypeNamespace \<Rightarrow> string \<Rightarrow> string \<Rightarrow> 'ts reader \<Rightarrow>
   (outcome \<times> diagnostic list \<times> 'ts) + 'ts reader"
where
  "read_line ns filename line st =
     (if c_str line = [] \<or> take 2 (c_str line) = ''//'' then Inr st
      else
        (case sscanf_type_fullname (c_str line) of (stored_type, stored_fullname) \<Rightarrow>
           (case (case stored_fullname of Some n \<Rightarrow> Some n | None \<Rightarrow> fullname_buf st,
                  case stored_type of Some t \<Rightarrow> Some t | None \<Rightarrow> type_buf st) of
              (Some fullname, Some ty) \<Rightarrow>
                (case cut_fullname fullname of (buffer, classname, package) \<Rightarrow>
                   (case new_document ty classname (lineno st) package of
                      None \<Rightarrow>
                        Inl (Returns 1,
                             reader_printed st @
                               [BadTypeInLine filename (lineno st) (c_str line)],
                             reader_types st)
                    | Some doc \<Rightarrow>
                        (case gather_types ns filename (Some doc) (reader_types st) of
                           (gathered, types') \<Rightarrow>
                             if \<not> gathered then
                               Inl (Returns 1, reader_printed st @ [FailedToGatherTypes], types')
                             else
                               Inr (st\<lparr>lineno := lineno st + 1,
                                       type_buf := Some ty,
                                       fullname_buf := Some buffer,
                                       reader_types := types'\<rparr>))))
            | _ \<Rightarrow> Inl (UndefinedBehaviour, reader_printed st, reader_types st))))"

text \<open>
  The loop over the lines, and its end: \<^verbatim>\<open>fgets\<close> returned null, at the end of the file or
  on a read error (\<^verbatim>\<open>feof\<close> is then false).
\<close>

fun read_lines ::
  "'ts TypeNamespace \<Rightarrow> string \<Rightarrow> bool \<Rightarrow> string list \<Rightarrow> 'ts reader \<Rightarrow>
   outcome \<times> diagnostic list \<times> 'ts"
where
  "read_lines ns filename read_error [] st =
     (if read_error then
        (Returns 1, reader_printed st @ [LineTooLong filename (lineno st)], reader_types st)
      else (Returns 0, reader_printed st, reader_types st))"
| "read_lines ns filename read_error (line # lines) st =
     (case read_line ns filename line st of
        Inl result \<Rightarrow> result
      | Inr st' \<Rightarrow> read_lines ns filename read_error lines st')"

definition parse_preprocessed_file ::
  "'ts TypeNamespace \<Rightarrow> world \<Rightarrow> string \<Rightarrow> 'ts \<Rightarrow> outcome \<times> diagnostic list \<times> 'ts"
where
  "parse_preprocessed_file ns w filename types =
     (case fopen w filename of
        None \<Rightarrow> (Returns 1, [CantOpenPreprocessed filename], types)
      | Some (bytes, read_error) \<Rightarrow>
          read_lines ns filename read_error (fgets_lines sizeof_line [] bytes)
            \<lparr>lineno = 1, type_buf = None, fullname_buf = None, reader_types = types,
             reader_printed = []\<rparr>)"

subsection \<open>\<^verbatim>\<open>load_and_validate_aidl\<close>\<close>

text \<open>
  The first loop: \<^verbatim>\<open>err |= parse_preprocessed_file(s, types)\<close> for every preprocessed file.
\<close>

fun load_preprocessed ::
  "'ts TypeNamespace \<Rightarrow> world \<Rightarrow> string list \<Rightarrow> int \<Rightarrow> diagnostic list \<Rightarrow> 'ts \<Rightarrow>
   outcome \<times> diagnostic list \<times> 'ts"
where
  "load_preprocessed ns w [] err printed types = (Returns err, printed, types)"
| "load_preprocessed ns w (s # ss) err printed types =
     (case parse_preprocessed_file ns w s types of
        (UndefinedBehaviour, msgs, types') \<Rightarrow> (UndefinedBehaviour, printed @ msgs, types')
      | (Returns r, msgs, types') \<Rightarrow>
          load_preprocessed ns w ss (err OR r) (printed @ msgs) types')"

text \<open>
  The loop over the imports of the input file, on the state \<open>(err, printed, docs)\<close>. \<open>docs\<close>
  lists the imports seen so far, each as the loop leaves it (\<^verbatim>\<open>SetFilename\<close>) and with its
  entry of the map \<^verbatim>\<open>docs\<close>: \<open>None\<close> when the map has no entry or a null document.
\<close>

fun resolve_imports ::
  "'ts TypeNamespace \<Rightarrow> world \<Rightarrow> string list \<Rightarrow> 'ts \<Rightarrow> AidlImport list \<Rightarrow>
   int \<times> diagnostic list \<times> (AidlImport \<times> AidlDocumentItem option) list \<Rightarrow>
   int \<times> diagnostic list \<times> (AidlImport \<times> AidlDocumentItem option) list"
where
  "resolve_imports ns w import_paths types [] st = st"
| "resolve_imports ns w import_paths types (imp # imps) (err, printed, docs) =
     (if HasType ns types (imp_needed_class imp) then
        resolve_imports ns w import_paths types imps (err, printed, docs @ [(imp, None)])
      else
        (let import_path = FindImportFile w import_paths (imp_needed_class imp) in
         if import_path = [] then
           resolve_imports ns w import_paths types imps
             (err OR 1,
              printed @ [CouldntFindImport (imp_from imp) (imp_line imp) (imp_needed_class imp)],
              docs @ [(imp, None)])
         else
           (let imp' = imp\<lparr>imp_filename := import_path\<rparr> in
            case ParseFile w (imp_filename imp') of
              None \<Rightarrow>
                resolve_imports ns w import_paths types imps
                  (err OR 1, printed @ [ErrorParsingImport (imp_needed_class imp)],
                   docs @ [(imp', None)])
            | Some p \<Rightarrow>
                (case check_filenames (getcwd w) (imp_filename imp') (parsed_document p) of
                   (valid, msgs) \<Rightarrow>
                     resolve_imports ns w import_paths types imps
                       (if \<not> valid then err OR 1 else err, printed @ msgs,
                        docs @ [(imp', parsed_document p)])))))"

fun gather_imports ::
  "'ts TypeNamespace \<Rightarrow> (AidlImport \<times> AidlDocumentItem option) list \<Rightarrow> int \<times> 'ts \<Rightarrow> int \<times> 'ts"
where
  "gather_imports ns [] st = st"
| "gather_imports ns ((imp, doc) # docs) (err, types) =
     (case gather_types ns (imp_filename imp) doc types of
        (gathered, types') \<Rightarrow>
          gather_imports ns docs (if \<not> gathered then err OR 1 else err, types'))"

text \<open>
  What a call leaves: the value returned, what was printed, the namespace, and what was
  stored through \<^verbatim>\<open>returned_interface\<close> and \<^verbatim>\<open>returned_imports\<close> (nothing on a failure).
\<close>

record 'ts loaded =
  rc :: outcome
  diagnostics :: "diagnostic list"
  namespace :: 'ts
  returned_interface :: "AidlInterface option"
  returned_imports :: "AidlImport list"

definition failed :: "outcome \<Rightarrow> diagnostic list \<Rightarrow> 'ts \<Rightarrow> 'ts loaded" where
  "failed r msgs types =
     \<lparr>rc = r, diagnostics = msgs, namespace = types, returned_interface = None,
      returned_imports = []\<rparr>"

text \<open>
  The driver from the point where the input has parsed as the interface \<open>interface\<close>:
  the filename check, the imports, the return when anything failed so far, then the types,
  the package, \<^verbatim>\<open>check_types\<close> and the method ids.
\<close>

definition validate_interface ::
  "'ts TypeNamespace \<Rightarrow> world \<Rightarrow> string list \<Rightarrow> string \<Rightarrow> parsed \<Rightarrow> AidlInterface \<Rightarrow>
   diagnostic list \<Rightarrow> 'ts \<Rightarrow> 'ts loaded"
where
  "validate_interface ns w import_paths input_file_name p interface printed0 types0 =
     (case check_filename (getcwd w) input_file_name (Interface_GetPackage interface)
             (i_name interface) (i_line interface) of
        (valid, msgs1) \<Rightarrow>
     (case resolve_imports ns w import_paths types0 (parsed_imports p)
             (if \<not> valid then 0 OR 1 else 0, printed0 @ msgs1, []) of
        (err2, printed2, docs) \<Rightarrow>
     if err2 \<noteq> 0 then failed (Returns err2) printed2 types0
     else
     (case gather_types ns input_file_name (Some (INTERFACE_TYPE_BINDER interface)) types0 of
        (gathered, types3) \<Rightarrow>
     (case gather_imports ns docs (if \<not> gathered then err2 OR 1 else err2, types3) of
        (err4, types4) \<Rightarrow>
     (let valid_package = IsValidPackage ns types4 (Interface_GetPackage interface);
          err5 = (if \<not> valid_package then err4 + 1 else err4);
          printed5 = (if \<not> valid_package
                      then printed2 @ [InvalidPackageDeclaration (Interface_GetPackage interface)]
                      else printed2)
      in
     (case check_types ns input_file_name interface types4 of
        (err_types, msgs6, types6) \<Rightarrow>
     (case check_and_assign_method_ids input_file_name (i_methods interface) of
        (err_ids, msgs7, methods7) \<Rightarrow>
     (let err7 = (err5 OR err_types) OR err_ids in
      if err7 \<noteq> 0 then failed (Returns err7) (printed5 @ msgs6 @ msgs7) types6
      else
        \<lparr>rc = Returns 0, diagnostics = printed5 @ msgs6 @ msgs7, namespace = types6,
         returned_interface = Some (interface\<lparr>i_methods := methods7\<rparr>),
         returned_imports = map fst docs\<rparr>))))))))"

definition load_and_validate_aidl ::
  "'ts TypeNamespace \<Rightarrow> world \<Rightarrow> string list \<Rightarrow> string list \<Rightarrow> string \<Rightarrow> 'ts \<Rightarrow> 'ts loaded"
where
  "load_and_validate_aidl ns w preprocessed_files import_paths input_file_name types =
     (case load_preprocessed ns w preprocessed_files 0 [] types of
        (UndefinedBehaviour, printed0, types0) \<Rightarrow> failed UndefinedBehaviour printed0 types0
      | (Returns err, printed0, types0) \<Rightarrow>
          if err \<noteq> 0 then failed (Returns err) printed0 types0
          else
            (case ParseFile w input_file_name of
               None \<Rightarrow> failed (Returns 1) printed0 types0
             | Some p \<Rightarrow>
                 (case parsed_document p of
                    Some (INTERFACE_TYPE_BINDER interface) \<Rightarrow>
                      validate_interface ns w import_paths input_file_name p interface
                        printed0 types0
                  | _ \<Rightarrow> failed (Returns 1) (printed0 @ [ExpectsOneInterface]) types0)))"

text \<open>The same result with more printed before it (not taken from the source).\<close>

definition prepend :: "diagnostic list \<Rightarrow> 'ts loaded \<Rightarrow> 'ts loaded" where
  "prepend msgs r = r\<lparr>diagnostics := msgs @ diagnostics r\<rparr>"

subsection \<open>The options (\<^verbatim>\<open>options.h\<close>)\<close>

datatype java_task = COMPILE_AIDL_TO_JAVA | PREPROCESS_AIDL

record JavaOptions =
  task :: java_task
  fail_on_parcelable :: bool
  import_paths :: "string list"
  preprocessed_files :: "string list"
  input_file_name :: string
  output_file_name :: string
  output_base_folder :: string
  dep_file_name :: string
  auto_dep_file :: bool
  files_to_preprocess :: "string list"

text \<open>
  \<^verbatim>\<open>CppOptions\<close> is declared outside \<^verbatim>\<open>src/\<close>; \<^verbatim>\<open>aidl.cpp\<close> reads \<^verbatim>\<open>ImportPaths()\<close> and
  \<^verbatim>\<open>InputFileName()\<close> of it.
\<close>

record CppOptions =
  ImportPaths :: "string list"
  InputFileName :: string

subsection \<open>The two compile tasks\<close>

text \<open>
  The back ends \<^verbatim>\<open>cpp::GenerateCpp\<close> and \<^verbatim>\<open>generate_java\<close> are outside \<^verbatim>\<open>src/\<close> and are
  parameters, as functions of what \<^verbatim>\<open>aidl.cpp\<close> hands them. \<open>types0\<close> is the namespace the
  task starts from (\<^verbatim>\<open>new cpp::TypeNamespace()\<close>, \<^verbatim>\<open>new java::JavaTypeNamespace()\<close>).
\<close>

definition compile_aidl_to_cpp ::
  "'ts TypeNamespace \<Rightarrow> (CppOptions \<Rightarrow> 'ts \<Rightarrow> AidlInterface \<Rightarrow> bool) \<Rightarrow> world \<Rightarrow> CppOptions \<Rightarrow>
   'ts \<Rightarrow> outcome \<times> diagnostic list"
where
  "compile_aidl_to_cpp ns GenerateCpp w options types0 =
     (let loaded = load_and_validate_aidl ns w [] (ImportPaths options) (InputFileName options)
                     types0
      in case rc loaded of
           UndefinedBehaviour \<Rightarrow> (UndefinedBehaviour, diagnostics loaded)
         | Returns err \<Rightarrow>
             if err \<noteq> 0 then (Returns err, diagnostics loaded)
             else
               (case returned_interface loaded of
                  None \<Rightarrow> (UndefinedBehaviour, diagnostics loaded)
                | Some interface \<Rightarrow>
                    (Returns (if GenerateCpp options (namespace loaded) interface then 0 else 1),
                     diagnostics loaded)))"

definition generate_outputFileName :: "JavaOptions \<Rightarrow> AidlInterface \<Rightarrow> string" where
  "generate_outputFileName options interface =
     output_base_folder options @ [OS_PATH_SEPARATOR] @
     map (\<lambda>c. if c = CHR ''.'' then OS_PATH_SEPARATOR else c) (Interface_GetPackage interface) @
     [OS_PATH_SEPARATOR] @ takeWhile (\<lambda>c. c \<noteq> CHR ''.'') (i_name interface) @ ''.java''"

text \<open>
  What the task does to the file system besides the back end's own output: the
  directories \<^verbatim>\<open>check_outputFilePath\<close> makes and the dependency file.
\<close>

datatype effect = Mkdir string | WriteFile string string

text \<open>
  \<^verbatim>\<open>check_outputFilePath\<close>: for every separator of the path, \<^verbatim>\<open>mkdir\<close> of the prefix before
  it unless \<^verbatim>\<open>access(path)\<close> succeeds (the source tests the whole path each time).
\<close>

definition check_outputFilePath :: "world \<Rightarrow> string \<Rightarrow> effect list" where
  "check_outputFilePath w path =
     concat (map (\<lambda>i. if path ! i = OS_PATH_SEPARATOR \<and> \<not> access w path
                      then [Mkdir (take i path)] else [])
               [0..<length path])"

definition backslash :: char where
  "backslash = CHR 0x5C"

definition newline :: char where
  "newline = CHR 0x0A"

fun dep_file_imports :: "bool \<Rightarrow> AidlImport list \<Rightarrow> string" where
  "dep_file_imports first [] = (if first then [newline] else [newline, newline])"
| "dep_file_imports first (imp # imps) =
     (if \<not> first then '' '' @ [backslash, newline] else []) @
     (if imp_filename imp \<noteq> [] then ''  '' @ imp_filename imp else []) @
     dep_file_imports False imps"

definition generate_dep_file ::
  "world \<Rightarrow> JavaOptions \<Rightarrow> AidlImport list \<Rightarrow> diagnostic list \<times> effect list"
where
  "generate_dep_file w options imps =
     (let fileName = (if auto_dep_file options then output_file_name options @ ''.d''
                      else dep_file_name options)
      in if \<not> GetCodeWriter w fileName then ([CouldNotOpen fileName], [])
         else
           ([], [WriteFile fileName
              (output_file_name options @ '': '' @ [backslash, newline] @
               ''  '' @ input_file_name options @ '' '' @
                 (if imps = [] then [] else [backslash]) @ [newline] @
               dep_file_imports True imps @
               input_file_name options @ '' :'' @ [newline] @
               concat (map (\<lambda>imp. if imp_filename imp \<noteq> []
                                   then imp_filename imp @ '' :'' @ [newline] else [])
                         imps))]))"

definition compile_aidl_to_java ::
  "'ts TypeNamespace \<Rightarrow> (string \<Rightarrow> string \<Rightarrow> AidlInterface \<Rightarrow> 'ts \<Rightarrow> int) \<Rightarrow> world \<Rightarrow>
   JavaOptions \<Rightarrow> 'ts \<Rightarrow> outcome \<times> diagnostic list \<times> effect list"
where
  "compile_aidl_to_java ns generate_java w options types0 =
     (let loaded = load_and_validate_aidl ns w (preprocessed_files options) (import_paths options)
                     (input_file_name options) types0
      in case rc loaded of
           UndefinedBehaviour \<Rightarrow> (UndefinedBehaviour, diagnostics loaded, [])
         | Returns err \<Rightarrow>
             if err \<noteq> 0 then (Returns err, diagnostics loaded, [])
             else
               (case returned_interface loaded of
                  None \<Rightarrow> (UndefinedBehaviour, diagnostics loaded, [])
                | Some interface \<Rightarrow>
                    (let output = (if length (output_file_name options) = 0 \<and>
                                      length (output_base_folder options) > 0
                                   then generate_outputFileName options interface
                                   else output_file_name options);
                         dep = (if auto_dep_file options \<or> dep_file_name options \<noteq> [] then
                                  (case generate_dep_file w options (returned_imports loaded) of
                                     (msgs, written) \<Rightarrow>
                                       (msgs, check_outputFilePath w output @ written))
                                else ([], []))
                     in (Returns (generate_java output (input_file_name options) interface
                                    (namespace loaded)),
                         diagnostics loaded @ fst dep,
                         snd dep @ check_outputFilePath w output))))"

subsection \<open>\<^verbatim>\<open>preprocess_aidl\<close>\<close>

text \<open>The line the first loop makes of a parsed document.\<close>

definition preprocessed_line :: "AidlDocumentItem \<Rightarrow> string" where
  "preprocessed_line doc =
     (case doc of
        USER_DATA_TYPE parcelable others \<Rightarrow>
          ''parcelable '' @
          (if Parcelable_GetPackage parcelable \<noteq> [] then Parcelable_GetPackage parcelable @ ''.''
           else []) @
          p_name parcelable
      | INTERFACE_TYPE_BINDER iface \<Rightarrow>
          ''interface '' @
          (if Interface_GetPackage iface \<noteq> [] then Interface_GetPackage iface @ ''.''
           else []) @
          i_name iface) @
     '';'' @ [newline]"

text \<open>
  The first loop: \<open>Inl\<close> is a return from inside it (\<^verbatim>\<open>ParseFile\<close> failed) or the
  dereference of a null document, \<open>Inr\<close> the vector \<^verbatim>\<open>lines\<close>.
\<close>

fun read_files :: "world \<Rightarrow> string list \<Rightarrow> string list \<Rightarrow> outcome + string list" where
  "read_files w [] lines = Inr lines"
| "read_files w (file # files) lines =
     (case ParseFile w file of
        None \<Rightarrow> Inl (Returns 1)
      | Some p \<Rightarrow>
          (case parsed_document p of
             None \<Rightarrow> Inl UndefinedBehaviour
           | Some doc \<Rightarrow> read_files w files (lines @ [preprocessed_line doc])))"

text \<open>
  The system calls of the task in order, and the files by path. \<^verbatim>\<open>write\<close> appends to the
  output file the bytes it reports written; \<^verbatim>\<open>unlink\<close> removes the file.
\<close>

datatype syscall = Open string bool | Write string int | Close | Unlink string

type_synonym files = "string \<rightharpoonup> string"

definition append_bytes :: "files \<Rightarrow> string \<Rightarrow> string \<Rightarrow> int \<Rightarrow> files" where
  "append_bytes fs path s n =
     (case fs path of None \<Rightarrow> fs | Some bytes \<Rightarrow> fs(path \<mapsto> bytes @ take (nat n) s))"

text \<open>The second loop, from the \<open>i\<close>-th line on, and the end of the function.\<close>

fun write_lines ::
  "world \<Rightarrow> string \<Rightarrow> nat \<Rightarrow> string list \<Rightarrow> files \<times> syscall list \<Rightarrow>
   outcome \<times> diagnostic list \<times> files \<times> syscall list"
where
  "write_lines w path i [] (fs, calls) = (Returns 0, [], fs, calls @ [Close])"
| "write_lines w path i (s # ss) (fs, calls) =
     (let len = int (length s); written = write_returns w i s in
      if len \<noteq> written then
        (Returns 1, [ErrorWritingToFile path],
         (append_bytes fs path s written)(path := None),
         calls @ [Write s written, Close, Unlink path])
      else write_lines w path (i + 1) ss (append_bytes fs path s written, calls @ [Write s written]))"

definition preprocess_aidl ::
  "world \<Rightarrow> JavaOptions \<Rightarrow> files \<Rightarrow> outcome \<times> diagnostic list \<times> files \<times> syscall list"
where
  "preprocess_aidl w options fs =
     (case read_files w (files_to_preprocess options) [] of
        Inl r \<Rightarrow> (r, [], fs, [])
      | Inr lines \<Rightarrow>
          if \<not> open_succeeds w (output_file_name options) then
            (Returns 1, [CouldNotOpenForWrite (output_file_name options)], fs,
             [Open (output_file_name options) False])
          else
            write_lines w (output_file_name options) 0 lines
              (fs(output_file_name options \<mapsto> []), [Open (output_file_name options) True]))"

subsection \<open>The kind and the qualified name of a declaration\<close>

text \<open>
  Not taken from the source: the fully qualified name of a declaration is its package,
  a dot, and its name, or the name alone without a package; its kind is the keyword of the
  preprocessed format.
\<close>

definition qualified_name :: "string \<Rightarrow> string \<Rightarrow> string" where
  "qualified_name package name = (if package = [] then name else package @ ''.'' @ name)"

definition declared_name :: "AidlDocumentItem \<Rightarrow> string" where
  "declared_name doc =
     (case doc of
        USER_DATA_TYPE p others \<Rightarrow> qualified_name (Parcelable_GetPackage p) (p_name p)
      | INTERFACE_TYPE_BINDER b \<Rightarrow> qualified_name (Interface_GetPackage b) (i_name b))"

definition declared_kind :: "AidlDocumentItem \<Rightarrow> string" where
  "declared_kind doc =
     (case doc of USER_DATA_TYPE p others \<Rightarrow> ''parcelable''
      | INTERFACE_TYPE_BINDER b \<Rightarrow> ''interface'')"

text \<open>
  A byte that can stand in a name written to a preprocessed file and read back: no white
  space, no semicolon, no NUL.
\<close>

definition name_char :: "char \<Rightarrow> bool" where
  "name_char c = (\<not> isspace c \<and> c \<noteq> CHR '';'' \<and> c \<noteq> CHR 0x00)"

text \<open>
  The document the reader makes of the first line of a file when that line is the one
  \<^verbatim>\<open>preprocess_aidl\<close> wrote for \<open>doc\<close>.
\<close>

definition read_back :: "AidlDocumentItem \<Rightarrow> AidlDocumentItem option" where
  "read_back doc =
     (case cut_fullname (declared_name doc) of
        (buffer, classname, package) \<Rightarrow> new_document (declared_kind doc) classname 1 package)"

subsection \<open>Declarations of the spec's scenarios\<close>

text \<open>Methods without arguments, as in the scenarios S1 to S4 of the spec.\<close>

definition implicit_method :: "string \<Rightarrow> string \<Rightarrow> int \<Rightarrow> AidlMethod" where
  "implicit_method ret name line =
     \<lparr>m_oneway = False, m_type = \<lparr>type_name = ret\<rparr>, m_name = name, m_arguments = [],
      m_has_id = False, m_id = 0, m_line = line\<rparr>"

definition explicit_method :: "string \<Rightarrow> string \<Rightarrow> int \<Rightarrow> int \<Rightarrow> AidlMethod" where
  "explicit_method ret name line n =
     \<lparr>m_oneway = False, m_type = \<lparr>type_name = ret\<rparr>, m_name = name, m_arguments = [],
      m_has_id = True, m_id = n, m_line = line\<rparr>"

text \<open>
  A namespace for the scenarios, after section 4.E of the spec: the state is the list of
  the qualified names known; adding a declaration fails on a name already there; no
  container is ever synthesised; a type is valid where its name is known, \<open>void\<close> only as a
  return type; an \<open>out\<close> or \<open>inout\<close> argument is refused for the built-in types.
\<close>

definition builtin_types :: "string list" where
  "builtin_types = [''void'', ''boolean'', ''byte'', ''char'', ''int'', ''long'', ''float'',
     ''double'', ''String'', ''CharSequence'', ''IBinder'']"

definition scenario_namespace :: "string list TypeNamespace" where
  "scenario_namespace =
     \<lparr>HasType = (\<lambda>types name. name \<in> set types),
      AddParcelableType = (\<lambda>p filename types.
        (qualified_name (Parcelable_GetPackage p) (p_name p) \<notin> set types,
         types @ [qualified_name (Parcelable_GetPackage p) (p_name p)])),
      AddBinderType = (\<lambda>b filename types.
        (qualified_name (Interface_GetPackage b) (i_name b) \<notin> set types,
         types @ [qualified_name (Interface_GetPackage b) (i_name b)])),
      MaybeAddContainerType = (\<lambda>name types. (True, types)),
      IsValidPackage = (\<lambda>types package. True),
      IsValidReturnType = (\<lambda>types ty filename. type_name ty \<in> set types),
      IsValidArg = (\<lambda>types arg index filename.
        type_name (arg_type arg) \<in> set types \<and> type_name (arg_type arg) \<noteq> ''void'' \<and>
        (IsOut arg \<longrightarrow> type_name (arg_type arg) \<notin> set builtin_types))\<rparr>"

text \<open>Scenario S2: \<^verbatim>\<open>package com.x; interface IBad { oneway int doit(); }\<close>\<close>

definition IBad :: AidlInterface where
  "IBad = \<lparr>i_name = ''IBad'', i_line = 1, i_oneway = False,
            i_methods = [(implicit_method ''int'' ''doit'' 1)\<lparr>m_oneway := True\<rparr>],
            i_package = [''com'', ''x'']\<rparr>"


text \<open>
  Scenario S1: \<^verbatim>\<open>com/x/IEcho.aidl\<close> declares
  \<^verbatim>\<open>interface IEcho { String echo(String s); int add(int a, int b); }\<close> in package \<open>com.x\<close>.
\<close>

definition in_argument :: "string \<Rightarrow> string \<Rightarrow> AidlArgument" where
  "in_argument ty name = \<lparr>arg_type = \<lparr>type_name = ty\<rparr>, arg_direction = IN_DIR, arg_name = name\<rparr>"

definition IEcho :: AidlInterface where
  "IEcho = \<lparr>i_name = ''IEcho'', i_line = 2, i_oneway = False,
       i_methods =
         [(implicit_method ''String'' ''echo'' 2)\<lparr>m_arguments := [in_argument ''String'' ''s'']\<rparr>,
          (implicit_method ''int'' ''add'' 2)
            \<lparr>m_arguments := [in_argument ''int'' ''a'', in_argument ''int'' ''b'']\<rparr>],
       i_package = [''com'', ''x'']\<rparr>"

text \<open>Scenario S6: the parcelable \<open>com.x.Foo\<close> of \<^verbatim>\<open>com/x/Foo.aidl\<close>.\<close>

definition Foo :: AidlParcelable where
  "Foo = \<lparr>p_name = ''Foo'', p_line = 2, p_package = [''com'', ''x'']\<rparr>"

text \<open>
  A world for the scenarios: the working directory is \<^verbatim>\<open>/src\<close>; three files parse, among
  them \<^verbatim>\<open>wrong/Path.aidl\<close>, which holds the interface of scenario S2 (scenario S5 with a
  faulty method); no preprocessed file opens; no import is found; the output opens and
  every \<^verbatim>\<open>write\<close> writes its whole buffer.
\<close>

definition scenario_world :: world where
  "scenario_world =
     \<lparr>getcwd = ''/src'',
      fopen = (\<lambda>path. None),
      ParseFile = (\<lambda>path.
        if path = ''com/x/IEcho.aidl''
        then Some \<lparr>parsed_document = Some (INTERFACE_TYPE_BINDER IEcho), parsed_imports = []\<rparr>
        else if path = ''com/x/Foo.aidl''
        then Some \<lparr>parsed_document = Some (USER_DATA_TYPE Foo []), parsed_imports = []\<rparr>
        else if path = ''wrong/Path.aidl''
        then Some \<lparr>parsed_document = Some (INTERFACE_TYPE_BINDER IBad), parsed_imports = []\<rparr>
        else None),
      FindImportFile = (\<lambda>paths needed. []),
      access = (\<lambda>path. False),
      GetCodeWriter = (\<lambda>path. True),
      open_succeeds = (\<lambda>path. True),
      write_returns = (\<lambda>i s. int (length s))\<rparr>"

definition preprocess_options :: JavaOptions where
  "preprocess_options =
     \<lparr>task = PREPROCESS_AIDL, fail_on_parcelable = False, import_paths = [],
      preprocessed_files = [], input_file_name = [], output_file_name = ''pre.txt'',
      output_base_folder = [], dep_file_name = [], auto_dep_file = False,
      files_to_preprocess = [''com/x/Foo.aidl'']\<rparr>"

definition java_options :: JavaOptions where
  "java_options =
     \<lparr>task = COMPILE_AIDL_TO_JAVA, fail_on_parcelable = False, import_paths = [],
      preprocessed_files = [''pre.txt''], input_file_name = ''com/x/IEcho.aidl'',
      output_file_name = ''IEcho.java'', output_base_folder = [], dep_file_name = [],
      auto_dep_file = False, files_to_preprocess = []\<rparr>"

definition cpp_options :: CppOptions where
  "cpp_options = \<lparr>ImportPaths = [], InputFileName = ''com/x/IEcho.aidl''\<rparr>"


text \<open>A parcelable without a package whose name has 1100 letters.\<close>

definition long_parcelable :: AidlDocumentItem where
  "long_parcelable =
     USER_DATA_TYPE \<lparr>p_name = replicate 1100 CHR ''a'', p_line = 1, p_package = []\<rparr> []"

section \<open>Method ids\<close>

lemma check_ids_Inl_printed:
  "check_ids f items used hu ha = Inl printed \<Longrightarrow> printed \<noteq> []"
  by (induction items arbitrary: used hu ha) (auto split: if_splits)

lemma check_ids_Inr_flags:
  "check_ids f items used hu ha = Inr (hu', ha') \<Longrightarrow>
     hu' = (hu \<or> (\<exists>m\<in>set items. \<not> m_has_id m)) \<and>
     ha' = (ha \<or> (\<exists>m\<in>set items. m_has_id m)) \<and>
     (\<not> (hu \<and> ha) \<longrightarrow> \<not> (hu' \<and> ha'))"
proof (induction items arbitrary: used hu ha)
  case Nil
  then show ?case by simp
next
  case (Cons item items)
  show ?case
  proof (cases "m_has_id item")
    case True
    with Cons.prems have rest: "check_ids f items (insert (m_id item) used) hu True = Inr (hu', ha')"
      and "\<not> hu"
      by (auto split: if_splits)
    from Cons.IH [OF rest] True \<open>\<not> hu\<close> show ?thesis by auto
  next
    case False
    with Cons.prems have rest: "check_ids f items used True ha = Inr (hu', ha')"
      and "\<not> ha"
      by (auto split: if_splits)
    from Cons.IH [OF rest] False \<open>\<not> ha\<close> show ?thesis by auto
  qed
qed

lemma check_ids_Inr_iff:
  "\<not> (hu \<and> ha) \<Longrightarrow>
   (\<exists>r. check_ids f items used hu ha = Inr r) =
     (((\<forall>m\<in>set items. \<not> m_has_id m) \<and> \<not> ha) \<or>
      ((\<forall>m\<in>set items. m_has_id m) \<and> \<not> hu \<and> distinct (map m_id items) \<and>
       (\<forall>m\<in>set items. m_id m \<notin> used \<and> 0 \<le> m_id m \<and> m_id m \<le> 16777214)))"
proof (induction items arbitrary: used hu ha)
  case Nil
  then show ?case by auto
next
  case (Cons item items)
  show ?case
  proof (cases "m_has_id item")
    case True
    show ?thesis
    proof (cases "m_id item \<in> used \<or> m_id item < 0 \<or> m_id item > 16777214 \<or> hu")
      case stop: True
      with True have "\<exists>d. check_ids f (item # items) used hu ha = Inl d"
        by (auto simp: kMinUserSetMethodId_def kMaxUserSetMethodId_def)
      with True stop show ?thesis by auto
    next
      case go: False
      with True have step: "check_ids f (item # items) used hu ha =
          check_ids f items (insert (m_id item) used) hu True"
        by (auto simp: kMinUserSetMethodId_def kMaxUserSetMethodId_def)
      from go have "\<not> (hu \<and> True)" by simp
      from Cons.IH [OF this, of "insert (m_id item) used"]
      have "(\<exists>r. check_ids f (item # items) used hu ha = Inr r) =
            ((\<forall>m\<in>set items. m_has_id m) \<and> \<not> hu \<and> distinct (map m_id items) \<and>
             (\<forall>m\<in>set items. m_id m \<notin> insert (m_id item) used \<and> 0 \<le> m_id m \<and>
                m_id m \<le> 16777214))"
        unfolding step by simp
      also have "\<dots> =
            ((\<forall>m\<in>set (item # items). m_has_id m) \<and> \<not> hu \<and>
             distinct (map m_id (item # items)) \<and>
             (\<forall>m\<in>set (item # items). m_id m \<notin> used \<and> 0 \<le> m_id m \<and> m_id m \<le> 16777214))"
        using True go by (auto simp: image_iff)
      finally show ?thesis using True by auto
    qed
  next
    case False
    show ?thesis
    proof (cases ha)
      case True
      with False have "\<exists>d. check_ids f (item # items) used hu ha = Inl d" by auto
      with False True show ?thesis by auto
    next
      case nha: False
      with False have step: "check_ids f (item # items) used hu ha =
          check_ids f items used True ha"
        by auto
      from nha have "\<not> (True \<and> ha)" by simp
      from Cons.IH [OF this, of used]
      have "(\<exists>r. check_ids f (item # items) used hu ha = Inr r) =
            (\<forall>m\<in>set items. \<not> m_has_id m)"
        unfolding step using nha by simp
      then show ?thesis using False nha by auto
    qed
  qed
qed

lemma check_ids_cases:
  "(\<exists>d. check_ids f items used hu ha = Inl d) \<or> (\<exists>r. check_ids f items used hu ha = Inr r)"
  by (cases "check_ids f items used hu ha") auto

lemma assign_ids_length: "length (assign_ids n items) = length items"
  by (induction items arbitrary: n) auto

lemma assign_ids_ids: "map m_id (assign_ids n items) = map (\<lambda>i. n + int i) [0..<length items]"
proof (induction items arbitrary: n)
  case Nil
  then show ?case by simp
next
  case (Cons item items)
  have "map (\<lambda>i. n + int i) [0..<Suc (length items)] =
        n # map (\<lambda>i. (n + 1) + int i) [0..<length items]"
    by (simp add: upt_conv_Cons map_Suc_upt [symmetric] del: upt_Suc)
  with Cons show ?case by (simp add: SetId_def)
qed

lemma assign_ids_nth:
  "i < length items \<Longrightarrow> assign_ids n items ! i = (items ! i)\<lparr>m_id := n + int i\<rparr>"
proof (induction items arbitrary: n i)
  case Nil
  then show ?case by simp
next
  case (Cons item items)
  then show ?case by (cases i) (auto simp: SetId_def)
qed

lemma check_and_assign_zero:
  "(fst (check_and_assign_method_ids f items) = 0) =
     (\<exists>r. check_ids f items {} False False = Inr r)"
  by (cases "check_ids f items {} False False")
     (auto simp: check_and_assign_method_ids_def)

lemma check_and_assign_nonzero:
  assumes "fst (check_and_assign_method_ids f items) \<noteq> 0"
  shows "fst (check_and_assign_method_ids f items) = 1"
    and "fst (snd (check_and_assign_method_ids f items)) \<noteq> []"
    and "snd (snd (check_and_assign_method_ids f items)) = items"
  using assms
  by (cases "check_ids f items {} False False";
      auto simp: check_and_assign_method_ids_def dest: check_ids_Inl_printed)+

text \<open>
  C1. \<^verbatim>\<open>check_and_assign_method_ids\<close> returns 0 exactly when no method has an explicit id,
  or every method has one, the ids are pairwise distinct and each lies in \<open>[0, 16777214]\<close>.
  In every other case it returns 1 and has printed a diagnostic.
\<close>

theorem method_ids_accepted_iff:
  "((fst (check_and_assign_method_ids f items) = 0) =
      ((\<forall>m\<in>set items. \<not> m_has_id m) \<or>
       ((\<forall>m\<in>set items. m_has_id m) \<and> distinct (map m_id items) \<and>
        (\<forall>m\<in>set items. 0 \<le> m_id m \<and> m_id m \<le> 16777214)))) \<and>
   (fst (check_and_assign_method_ids f items) \<noteq> 0 \<longrightarrow>
      fst (check_and_assign_method_ids f items) = 1 \<and>
      fst (snd (check_and_assign_method_ids f items)) \<noteq> [])"
proof
  have "\<not> (False \<and> False)" by simp
  from check_ids_Inr_iff [OF this, of f items "{}"]
  show "(fst (check_and_assign_method_ids f items) = 0) =
      ((\<forall>m\<in>set items. \<not> m_has_id m) \<or>
       ((\<forall>m\<in>set items. m_has_id m) \<and> distinct (map m_id items) \<and>
        (\<forall>m\<in>set items. 0 \<le> m_id m \<and> m_id m \<le> 16777214)))"
    by (simp add: check_and_assign_zero)
next
  show "fst (check_and_assign_method_ids f items) \<noteq> 0 \<longrightarrow>
      fst (check_and_assign_method_ids f items) = 1 \<and>
      fst (snd (check_and_assign_method_ids f items)) \<noteq> []"
    using check_and_assign_nonzero(1,2) by blast
qed


theorem method_ids_accepted_iff_witness:
  "fst (check_and_assign_method_ids ''IDup.aidl''
      [explicit_method ''void'' ''a'' 1 1, explicit_method ''void'' ''b'' 1 1]) = 1 \<and>
   fst (snd (check_and_assign_method_ids ''IDup.aidl''
      [explicit_method ''void'' ''a'' 1 1, explicit_method ''void'' ''b'' 1 1])) \<noteq> [] \<and>
   fst (check_and_assign_method_ids ''IOk.aidl''
      [explicit_method ''void'' ''a'' 1 0, explicit_method ''void'' ''b'' 1 16777214]) = 0"
  using method_ids_accepted_iff [of "''IDup.aidl''"
      "[explicit_method ''void'' ''a'' 1 1, explicit_method ''void'' ''b'' 1 1]"]
    method_ids_accepted_iff [of "''IOk.aidl''"
      "[explicit_method ''void'' ''a'' 1 0, explicit_method ''void'' ''b'' 1 16777214]"]
  by (simp add: explicit_method_def)

text \<open>
  C2. When no method has an explicit id, the call succeeds and the methods get the ids
  \<open>0, 1, ..., n - 1\<close> in the order of the vector; nothing else of a method changes.
\<close>

theorem implicit_ids_sequential:
  assumes "\<forall>m\<in>set items. \<not> m_has_id m"
  shows "fst (check_and_assign_method_ids f items) = 0 \<and>
         length (snd (snd (check_and_assign_method_ids f items))) = length items \<and>
         map m_id (snd (snd (check_and_assign_method_ids f items))) =
           map int [0..<length items] \<and>
         (\<forall>i<length items. snd (snd (check_and_assign_method_ids f items)) ! i =
            (items ! i)\<lparr>m_id := int i\<rparr>)"
proof -
  have "\<not> (False \<and> False)" by simp
  from check_ids_Inr_iff [OF this, of f items "{}"] assms
  obtain hu ha where r: "check_ids f items {} False False = Inr (hu, ha)"
    by auto
  from check_ids_Inr_flags [OF r] have hu: "hu = (\<exists>m\<in>set items. \<not> m_has_id m)"
    by simp
  show ?thesis
  proof (cases hu)
    case True
    with r have "check_and_assign_method_ids f items = (0, [], assign_ids 0 items)"
      by (simp add: check_and_assign_method_ids_def)
    then show ?thesis
      by (simp add: assign_ids_length assign_ids_ids assign_ids_nth)
  next
    case False
    with hu assms have "items = []" by (cases items) auto
    with r show ?thesis by (simp add: check_and_assign_method_ids_def)
  qed
qed


theorem implicit_ids_sequential_witness:
  "fst (check_and_assign_method_ids ''com/x/IEcho.aidl''
      [implicit_method ''String'' ''echo'' 2, implicit_method ''int'' ''add'' 2]) = 0 \<and>
   map m_id (snd (snd (check_and_assign_method_ids ''com/x/IEcho.aidl''
      [implicit_method ''String'' ''echo'' 2, implicit_method ''int'' ''add'' 2]))) = [0, 1]"
proof -
  have none: "\<forall>m\<in>set [implicit_method ''String'' ''echo'' 2, implicit_method ''int'' ''add'' 2].
      \<not> m_has_id m"
    by (simp add: implicit_method_def)
  from implicit_ids_sequential [OF none, of "''com/x/IEcho.aidl''"]
  show ?thesis by (simp add: upt_conv_Cons)
qed

text \<open>
  C9. The methods are written only when the call succeeds on a vector without explicit
  ids: a nonzero return leaves the vector as it was, and so does every call on a vector
  in which some method has an explicit id.
\<close>

theorem method_ids_frame:
  "(fst (check_and_assign_method_ids f items) \<noteq> 0 \<longrightarrow>
      snd (snd (check_and_assign_method_ids f items)) = items) \<and>
   ((\<exists>m\<in>set items. m_has_id m) \<longrightarrow>
      snd (snd (check_and_assign_method_ids f items)) = items)"
proof (intro conjI impI)
  assume "fst (check_and_assign_method_ids f items) \<noteq> 0"
  then show "snd (snd (check_and_assign_method_ids f items)) = items"
    by (rule check_and_assign_nonzero(3))
next
  assume ex: "\<exists>m\<in>set items. m_has_id m"
  show "snd (snd (check_and_assign_method_ids f items)) = items"
  proof (cases "check_ids f items {} False False")
    case (Inl printed)
    then show ?thesis by (simp add: check_and_assign_method_ids_def)
  next
    case (Inr r)
    obtain hu ha where "r = (hu, ha)" by (cases r)
    with Inr have r: "check_ids f items {} False False = Inr (hu, ha)" by simp
    from check_ids_Inr_flags [OF r] ex have "\<not> hu" by auto
    with r show ?thesis by (simp add: check_and_assign_method_ids_def)
  qed
qed


theorem method_ids_frame_witness:
  "snd (snd (check_and_assign_method_ids ''IMix.aidl''
      [explicit_method ''void'' ''a'' 1 3, implicit_method ''void'' ''b'' 1])) =
     [explicit_method ''void'' ''a'' 1 3, implicit_method ''void'' ''b'' 1] \<and>
   fst (check_and_assign_method_ids ''IMix.aidl''
      [explicit_method ''void'' ''a'' 1 3, implicit_method ''void'' ''b'' 1]) \<noteq> 0"
proof -
  have some: "\<exists>m\<in>set [explicit_method ''void'' ''a'' 1 3, implicit_method ''void'' ''b'' 1].
      m_has_id m"
    by (simp add: explicit_method_def)
  have "fst (check_and_assign_method_ids ''IMix.aidl''
      [explicit_method ''void'' ''a'' 1 3, implicit_method ''void'' ''b'' 1]) \<noteq> 0"
    by (simp add: check_and_assign_method_ids_def explicit_method_def implicit_method_def
        kMinUserSetMethodId_def kMaxUserSetMethodId_def)
  with some method_ids_frame [of "''IMix.aidl''"
      "[explicit_method ''void'' ''a'' 1 3, implicit_method ''void'' ''b'' 1]"]
  show ?thesis by blast
qed

section \<open>The type check of an interface\<close>

lemma namespace_after_append:
  "namespace_after ns (us @ vs) t = namespace_after ns vs (namespace_after ns us t)"
  by (induction us arbitrary: t) auto

lemma some_type_check_fails_append:
  "some_type_check_fails ns f (us @ vs) t =
     (some_type_check_fails ns f us t \<or> some_type_check_fails ns f vs (namespace_after ns us t))"
  by (induction us arbitrary: t) auto

lemma find_snoc:
  "find P (xs @ [y]) = (case find P xs of None \<Rightarrow> (if P y then Some y else None) | Some x \<Rightarrow> Some x)"
  by (induction xs) auto

lemma out_messages_Nil [simp]: "out_messages f m ow [] = []"
  by (simp add: out_messages_def)

lemma out_messages_Cons [simp]:
  "out_messages f m ow (arg # args) =
     (if ow \<and> IsOut arg then [OnewayCannotHaveOut f (m_line m) (m_name m)] else []) @
     out_messages f m ow args"
  by (simp add: out_messages_def)

lemma out_messages_eq_Nil:
  "(out_messages f m ow args = []) = (\<not> (ow \<and> (\<exists>a\<in>set args. IsOut a)))"
  by (induction args) auto

lemma out_messages_set:
  "set (out_messages f m ow args) =
     (if ow \<and> (\<exists>a\<in>set args. IsOut a) then {OnewayCannotHaveOut f (m_line m) (m_name m)} else {})"
  by (induction args) auto

lemma check_arguments_eq:
  "check_arguments ns f m ow idx args (err, p, t) =
     (if some_type_check_fails ns f (map (\<lambda>a. ArgumentUse a idx) args) t \<or>
         (ow \<and> (\<exists>a\<in>set args. IsOut a)) then 1 else err,
      p @ out_messages f m ow args,
      namespace_after ns (map (\<lambda>a. ArgumentUse a idx) args) t)"
proof (induction args arbitrary: err p t)
  case Nil
  then show ?case by simp
next
  case (Cons arg args)
  obtain added t1 where ma: "MaybeAddContainerType ns (type_name (arg_type arg)) t = (added, t1)"
    by (cases "MaybeAddContainerType ns (type_name (arg_type arg)) t")
  have ca: "check_argument ns f m ow idx arg (err, p, t) =
      (if \<not> added \<or> \<not> IsValidArg ns t1 arg idx f \<or> (ow \<and> IsOut arg) then 1 else err,
       p @ (if ow \<and> IsOut arg then [OnewayCannotHaveOut f (m_line m) (m_name m)] else []),
       t1)"
    by (simp add: check_argument_def ma Let_def)
  have "check_arguments ns f m ow idx (arg # args) (err, p, t) =
      check_arguments ns f m ow idx args
        (if \<not> added \<or> \<not> IsValidArg ns t1 arg idx f \<or> (ow \<and> IsOut arg) then 1 else err,
         p @ (if ow \<and> IsOut arg then [OnewayCannotHaveOut f (m_line m) (m_name m)] else []),
         t1)"
    by (simp only: check_arguments.simps ca)
  also note Cons.IH
  finally show ?case by (auto simp: ma)
qed

lemma check_method_eq:
  assumes "names = (\<lambda>k. find (\<lambda>e. m_name e = k) earlier)"
  shows "check_method ns f c m (err, p, t, names) =
     (if some_type_check_fails ns f (calls_of_method m) t \<or> messages_of_method f c earlier m \<noteq> []
      then 1 else err,
      p @ messages_of_method f c earlier m,
      namespace_after ns (calls_of_method m) t,
      (\<lambda>k. find (\<lambda>e. m_name e = k) (earlier @ [m])))"
proof -
  obtain added t1 where ma: "MaybeAddContainerType ns (type_name (m_type m)) t = (added, t1)"
    by (cases "MaybeAddContainerType ns (type_name (m_type m)) t")
  show ?thesis
  proof (cases "find (\<lambda>e. m_name e = m_name m) earlier")
    case None
    have "(\<lambda>k. find (\<lambda>e. m_name e = k) (earlier @ [m])) = names(m_name m \<mapsto> m)"
      using None by (auto simp: assms find_snoc fun_eq_iff split: option.splits)
    then show ?thesis
      using None
      by (auto simp add: check_method_def ma assms Let_def check_arguments_eq calls_of_method_def
          messages_of_method_def effectively_oneway_def out_messages_eq_Nil)
  next
    case (Some previous)
    have "(\<lambda>k. find (\<lambda>e. m_name e = k) (earlier @ [m])) = names"
      using Some by (auto simp: assms find_snoc fun_eq_iff split: option.splits)
    then show ?thesis
      using Some
      by (auto simp add: check_method_def ma assms Let_def check_arguments_eq calls_of_method_def
          messages_of_method_def effectively_oneway_def out_messages_eq_Nil)
  qed
qed

lemma check_methods_eq:
  assumes "names = (\<lambda>k. find (\<lambda>e. m_name e = k) earlier)"
  shows "check_methods ns f c ms (err, p, t, names) =
     (if some_type_check_fails ns f (concat (map calls_of_method ms)) t \<or>
         messages_of_methods f c earlier ms \<noteq> [] then 1 else err,
      p @ messages_of_methods f c earlier ms,
      namespace_after ns (concat (map calls_of_method ms)) t,
      (\<lambda>k. find (\<lambda>e. m_name e = k) (earlier @ ms)))"
  using assms
proof (induction ms arbitrary: err p t names earlier)
  case Nil
  then show ?case by simp
next
  case (Cons m ms)
  have step: "check_methods ns f c (m # ms) (err, p, t, names) =
      check_methods ns f c ms
        (if some_type_check_fails ns f (calls_of_method m) t \<or> messages_of_method f c earlier m \<noteq> []
         then 1 else err,
         p @ messages_of_method f c earlier m,
         namespace_after ns (calls_of_method m) t,
         (\<lambda>k. find (\<lambda>e. m_name e = k) (earlier @ [m])))"
    by (simp add: check_method_eq [OF Cons.prems])
  show ?case
    unfolding step
    by (subst Cons.IH [of _ "earlier @ [m]"])
       (auto simp: some_type_check_fails_append namespace_after_append)
qed

lemma check_types_eq:
  "check_types ns f c ts =
     (if some_type_check_fails ns f (concat (map calls_of_method (i_methods c))) ts \<or>
         messages_of_methods f c [] (i_methods c) \<noteq> [] then 1 else 0,
      messages_of_methods f c [] (i_methods c),
      namespace_after ns (concat (map calls_of_method (i_methods c))) ts)"
proof -
  have "Map.empty = (\<lambda>k. find (\<lambda>e. m_name e = k) ([] :: AidlMethod list))"
    by simp
  from check_methods_eq [OF this, of ns f c "i_methods c" 0 "[]" ts]
  show ?thesis by (simp add: check_types_def)
qed

lemma oneway_return_message:
  "m \<in> set ms \<Longrightarrow> effectively_oneway c m \<Longrightarrow> type_name (m_type m) \<noteq> ''void'' \<Longrightarrow>
   OnewayCannotReturn f (m_line m) (m_name m) \<in> set (messages_of_methods f c earlier ms)"
  by (induction ms arbitrary: earlier) (auto simp: messages_of_method_def)

lemma oneway_out_message:
  "m \<in> set ms \<Longrightarrow> effectively_oneway c m \<Longrightarrow> \<exists>a\<in>set (m_arguments m). IsOut a \<Longrightarrow>
   OnewayCannotHaveOut f (m_line m) (m_name m) \<in> set (messages_of_methods f c earlier ms)"
  by (induction ms arbitrary: earlier) (auto simp: messages_of_method_def out_messages_set)

text \<open>
  C3. For every method that is effectively oneway (the interface or the method is marked
  oneway) and that returns something else than \<open>void\<close> or has an \<open>out\<close> or \<open>inout\<close>
  argument, \<^verbatim>\<open>check_types\<close> returns 1 and has printed the oneway message for that method.
  Hence an interface on which \<^verbatim>\<open>check_types\<close> returns 0 satisfies the oneway closure.
\<close>

theorem oneway_closure:
  "(\<forall>m\<in>set (i_methods c).
      (m_oneway m \<or> i_oneway c) \<and>
      \<not> (type_name (m_type m) = ''void'' \<and> (\<forall>a\<in>set (m_arguments m). \<not> IsOut a)) \<longrightarrow>
      fst (check_types ns f c ts) = 1 \<and>
      (OnewayCannotReturn f (m_line m) (m_name m) \<in> set (fst (snd (check_types ns f c ts))) \<or>
       OnewayCannotHaveOut f (m_line m) (m_name m) \<in> set (fst (snd (check_types ns f c ts))))) \<and>
   (fst (check_types ns f c ts) = 0 \<longrightarrow>
      (\<forall>m\<in>set (i_methods c). m_oneway m \<or> i_oneway c \<longrightarrow>
         type_name (m_type m) = ''void'' \<and> (\<forall>a\<in>set (m_arguments m). \<not> IsOut a)))"
proof -
  have reported: "fst (check_types ns f c ts) = 1 \<and>
      (OnewayCannotReturn f (m_line m) (m_name m) \<in> set (fst (snd (check_types ns f c ts))) \<or>
       OnewayCannotHaveOut f (m_line m) (m_name m) \<in> set (fst (snd (check_types ns f c ts))))"
    if m: "m \<in> set (i_methods c)" and ow: "m_oneway m \<or> i_oneway c"
      and bad: "\<not> (type_name (m_type m) = ''void'' \<and> (\<forall>a\<in>set (m_arguments m). \<not> IsOut a))"
    for m
  proof -
    from ow have eo: "effectively_oneway c m" by (simp add: effectively_oneway_def)
    have msg: "OnewayCannotReturn f (m_line m) (m_name m)
          \<in> set (messages_of_methods f c [] (i_methods c)) \<or>
        OnewayCannotHaveOut f (m_line m) (m_name m)
          \<in> set (messages_of_methods f c [] (i_methods c))"
    proof (cases "type_name (m_type m) = ''void''")
      case True
      with bad have "\<exists>a\<in>set (m_arguments m). IsOut a" by simp
      from oneway_out_message [OF m eo this] show ?thesis by simp
    next
      case False
      from oneway_return_message [OF m eo False] show ?thesis by simp
    qed
    then have "messages_of_methods f c [] (i_methods c) \<noteq> []" by auto
    with msg show ?thesis by (simp add: check_types_eq)
  qed
  then show ?thesis by fastforce
qed

theorem oneway_closure_witness:
  "fst (check_types scenario_namespace ''com/x/IBad.aidl'' IBad builtin_types) = 1 \<and>
   OnewayCannotReturn ''com/x/IBad.aidl'' 1 ''doit''
     \<in> set (fst (snd (check_types scenario_namespace ''com/x/IBad.aidl'' IBad builtin_types)))"
proof -
  let ?m = "(implicit_method ''int'' ''doit'' 1)\<lparr>m_oneway := True\<rparr>"
  have m: "?m \<in> set (i_methods IBad)" by (simp add: IBad_def)
  have bad: "(m_oneway ?m \<or> i_oneway IBad) \<and>
      \<not> (type_name (m_type ?m) = ''void'' \<and> (\<forall>a\<in>set (m_arguments ?m). \<not> IsOut a))"
    by (simp add: implicit_method_def)
  have args: "m_arguments ?m = []" "m_line ?m = 1" "m_name ?m = ''doit''"
    by (simp_all add: implicit_method_def)
  have "OnewayCannotHaveOut ''com/x/IBad.aidl'' 1 ''doit''
      \<notin> set (fst (snd (check_types scenario_namespace ''com/x/IBad.aidl'' IBad builtin_types)))"
    by (simp add: check_types_eq IBad_def implicit_method_def messages_of_method_def
        effectively_oneway_def)
  with oneway_closure [of IBad scenario_namespace "''com/x/IBad.aidl''" builtin_types] m bad args
  show ?thesis by (metis (no_types, lifting))
qed










section \<open>The filename check\<close>

lemma split_at_not_Nil [simp]: "split_at sep s \<noteq> []"
  by (induction s) (auto split: list.splits)

lemma Join_Cons: "ys \<noteq> [] \<Longrightarrow> Join (x # ys) sep = x @ sep # Join ys sep"
  by (cases ys) auto

lemma Join_split_at [simp]: "Join (split_at sep s) sep = s"
proof (induction s)
  case Nil
  then show ?case by simp
next
  case (Cons c cs)
  show ?case
  proof (cases "c = sep")
    case True
    with Cons show ?thesis by (simp add: Join_Cons)
  next
    case False
    obtain w ws where sp: "split_at sep cs = w # ws"
      by (cases "split_at sep cs") auto
    with Cons False show ?thesis by (cases ws) auto
  qed
qed

lemma Join_append:
  "xs \<noteq> [] \<Longrightarrow> ys \<noteq> [] \<Longrightarrow> Join (xs @ ys) sep = Join xs sep @ sep # Join ys sep"
proof (induction xs)
  case Nil
  then show ?case by simp
next
  case (Cons x xs)
  then show ?case by (cases xs) (auto simp: Join_Cons)
qed

lemma suffix_Join:
  assumes "ys \<noteq> []"
  shows "suffix (Join ys sep) (Join (xs @ ys) sep)"
proof (cases "xs = []")
  case True
  then show ?thesis by simp
next
  case False
  from Join_append [OF False assms] show ?thesis
    by (simp add: suffix_def)
qed

lemma tail_components_suffix:
  assumes "tail_components_match path expected"
  shows "suffix expected path"
proof -
  let ?ps = "path_components path" and ?es = "path_components expected"
  from assms have "?ps = take (length ?ps - length ?es) ?ps @ ?es"
    by (metis append_take_drop_id tail_components_match_def)
  then have "Join ?ps OS_PATH_SEPARATOR =
      Join (take (length ?ps - length ?es) ?ps @ ?es) OS_PATH_SEPARATOR"
    by simp
  moreover have "?es \<noteq> []" by (simp add: path_components_def)
  ultimately have "suffix (Join ?es OS_PATH_SEPARATOR) (Join ?ps OS_PATH_SEPARATOR)"
    using suffix_Join by metis
  then show ?thesis by (simp add: path_components_def)
qed

lemma suffix_iff_drop:
  "suffix e fn = (length e \<le> length fn \<and> drop (length fn - length e) fn = e)"
proof
  assume "suffix e fn"
  then obtain zs where "fn = zs @ e" by (auto simp: suffix_def)
  then show "length e \<le> length fn \<and> drop (length fn - length e) fn = e" by simp
next
  assume "length e \<le> length fn \<and> drop (length fn - length e) fn = e"
  then have "fn = take (length fn - length e) fn @ e"
    by (metis append_take_drop_id)
  then show "suffix e fn" unfolding suffix_def by blast
qed

lemma check_filename_iff_suffix:
  "fst (check_filename cwd filename package name line) =
     suffix (expected_filename package name) (absolute_filename cwd filename)"
  by (auto simp: check_filename_def Let_def suffix_iff_drop)

lemma check_filename_printed:
  "snd (check_filename cwd filename package name line) =
     (if fst (check_filename cwd filename package name line) then []
      else [ShouldBeDeclaredIn filename line name (expected_filename package name)])"
  by (simp add: check_filename_def Let_def)

text \<open>
  C4, as amended. \<^verbatim>\<open>check_filename\<close> succeeds only if the path, made absolute against the
  working directory, ends as a string with the package written as a directory path, the
  name up to its first dot and \<^verbatim>\<open>.aidl\<close>; it does succeed whenever the trailing components
  of that absolute path are the components of this expected name; and when it fails it
  prints the message naming the expected file.
\<close>

theorem check_filename_tail:
  "(fst (check_filename cwd filename package name line) \<longrightarrow>
      suffix (expected_filename package name) (absolute_filename cwd filename)) \<and>
   (tail_components_match (absolute_filename cwd filename) (expected_filename package name) \<longrightarrow>
      fst (check_filename cwd filename package name line)) \<and>
   (\<not> fst (check_filename cwd filename package name line) \<longrightarrow>
      snd (check_filename cwd filename package name line) =
        [ShouldBeDeclaredIn filename line name (expected_filename package name)])"
  using tail_components_suffix
  by (simp add: check_filename_iff_suffix check_filename_printed)

theorem check_filename_tail_witness:
  "fst (check_filename ''/src'' ''com/x/IEcho.aidl'' ''com.x'' ''IEcho'' 1) \<and>
   suffix ''com/x/IEcho.aidl'' ''/src/com/x/IEcho.aidl'' \<and>
   snd (check_filename ''/src'' ''wrong/Path.aidl'' ''com.x'' ''IEcho'' 1) =
     [ShouldBeDeclaredIn ''wrong/Path.aidl'' 1 ''IEcho'' ''com/x/IEcho.aidl'']"
proof -
  have abs: "absolute_filename ''/src'' ''com/x/IEcho.aidl'' = ''/src/com/x/IEcho.aidl''"
    by (simp add: absolute_filename_def OS_PATH_SEPARATOR_def)
  have exp: "expected_filename ''com.x'' ''IEcho'' = ''com/x/IEcho.aidl''"
    by (simp add: expected_filename_def OS_PATH_SEPARATOR_def)
  have tail: "tail_components_match ''/src/com/x/IEcho.aidl'' ''com/x/IEcho.aidl''"
    by (simp add: tail_components_match_def path_components_def OS_PATH_SEPARATOR_def)
  have bad: "\<not> fst (check_filename ''/src'' ''wrong/Path.aidl'' ''com.x'' ''IEcho'' 1)"
    by (simp add: check_filename_def absolute_filename_def expected_filename_def
        OS_PATH_SEPARATOR_def)
  from check_filename_tail [of "''/src''" "''com/x/IEcho.aidl''" "''com.x''" "''IEcho''" 1]
    check_filename_tail [of "''/src''" "''wrong/Path.aidl''" "''com.x''" "''IEcho''" 1]
    abs exp tail bad
  show ?thesis by simp
qed

text \<open>
  C4 as stated fails. The check accepts \<^verbatim>\<open>/src/xcom/x/IEcho.aidl\<close> for \<^verbatim>\<open>com.x.IEcho\<close>,
  whose matching tail starts inside the component \<^verbatim>\<open>xcom\<close>; and it accepts the relative
  path \<^verbatim>\<open>IEcho.aidl\<close> from the working directory \<^verbatim>\<open>/src/com/x\<close>, although the trailing
  components of the path given are not those of \<^verbatim>\<open>com/x/IEcho.aidl\<close>.
\<close>

theorem check_filename_components_counterexample:
  "fst (check_filename ''/src'' ''/src/xcom/x/IEcho.aidl'' ''com.x'' ''IEcho'' 1) \<and>
   \<not> tail_components_match ''/src/xcom/x/IEcho.aidl'' (expected_filename ''com.x'' ''IEcho'') \<and>
   fst (check_filename ''/src/com/x'' ''IEcho.aidl'' ''com.x'' ''IEcho'' 1) \<and>
   \<not> tail_components_match ''IEcho.aidl'' (expected_filename ''com.x'' ''IEcho'')"
  by (simp add: check_filename_def absolute_filename_def expected_filename_def
      tail_components_match_def path_components_def OS_PATH_SEPARATOR_def)

section \<open>Writing the preprocessed file\<close>

lemma write_lines_failure:
  assumes "\<exists>k<length ss. write_returns w (i + k) (ss ! k) \<noteq> int (length (ss ! k))"
  shows "\<exists>fs' pre s r.
           write_lines w path i ss (fs, calls) =
             (Returns 1, [ErrorWritingToFile path], fs',
              calls @ pre @ [Write s r, Close, Unlink path]) \<and>
           fs' path = None"
  using assms
proof (induction ss arbitrary: i fs calls)
  case Nil
  then show ?case by simp
next
  case (Cons s ss)
  show ?case
  proof (cases "int (length s) = write_returns w i s")
    case False
    then have "write_lines w path i (s # ss) (fs, calls) =
        (Returns 1, [ErrorWritingToFile path],
         (append_bytes fs path s (write_returns w i s))(path := None),
         calls @ [] @ [Write s (write_returns w i s), Close, Unlink path])"
      by (simp add: Let_def)
    then show ?thesis by (metis fun_upd_same)
  next
    case True
    from Cons.prems obtain k where k: "k < Suc (length ss)"
      "write_returns w (i + k) ((s # ss) ! k) \<noteq> int (length ((s # ss) ! k))"
      by auto
    with True obtain j where j: "k = Suc j" by (cases k) auto
    with k have "\<exists>j<length ss. write_returns w (Suc i + j) (ss ! j) \<noteq> int (length (ss ! j))"
      by auto
    from Cons.IH [OF this, of "append_bytes fs path s (write_returns w i s)"
        "calls @ [Write s (write_returns w i s)]"]
    obtain fs' pre s' r where
      "write_lines w path (Suc i) ss
         (append_bytes fs path s (write_returns w i s), calls @ [Write s (write_returns w i s)]) =
       (Returns 1, [ErrorWritingToFile path], fs',
        (calls @ [Write s (write_returns w i s)]) @ pre @ [Write s' r, Close, Unlink path])"
      and "fs' path = None"
      by blast
    with True have "write_lines w path i (s # ss) (fs, calls) =
        (Returns 1, [ErrorWritingToFile path], fs',
         calls @ (Write s (write_returns w i s) # pre) @ [Write s' r, Close, Unlink path])"
      by (simp add: Let_def)
    with \<open>fs' path = None\<close> show ?thesis by blast
  qed
qed

text \<open>
  C8. When the lines were read, the output file opened and some \<^verbatim>\<open>write\<close> does not report
  the whole line written, \<^verbatim>\<open>preprocess_aidl\<close> returns 1 after printing the write error, its
  last two system calls are \<^verbatim>\<open>close\<close> and \<^verbatim>\<open>unlink\<close> of the output file, and no output file
  remains.
\<close>

theorem preprocess_write_failure:
  assumes "read_files w (files_to_preprocess options) [] = Inr lines"
    and "open_succeeds w (output_file_name options)"
    and "\<exists>k<length lines. write_returns w k (lines ! k) \<noteq> int (length (lines ! k))"
  shows "fst (preprocess_aidl w options fs) = Returns 1 \<and>
         fst (snd (preprocess_aidl w options fs)) =
           [ErrorWritingToFile (output_file_name options)] \<and>
         fst (snd (snd (preprocess_aidl w options fs))) (output_file_name options) = None \<and>
         suffix [Close, Unlink (output_file_name options)]
           (snd (snd (snd (preprocess_aidl w options fs))))"
proof -
  from assms(3) have "\<exists>k<length lines. write_returns w (0 + k) (lines ! k) \<noteq> int (length (lines ! k))"
    by simp
  from write_lines_failure [OF this, of "output_file_name options"
      "fs(output_file_name options \<mapsto> [])" "[Open (output_file_name options) True]"]
  obtain fs' pre s r where
    run: "write_lines w (output_file_name options) 0 lines
        (fs(output_file_name options \<mapsto> []), [Open (output_file_name options) True]) =
      (Returns 1, [ErrorWritingToFile (output_file_name options)], fs',
       [Open (output_file_name options) True] @ pre @
         [Write s r, Close, Unlink (output_file_name options)])"
    and gone: "fs' (output_file_name options) = None"
    by blast
  have "suffix [Close, Unlink (output_file_name options)]
      ([Open (output_file_name options) True] @ pre @
         [Write s r, Close, Unlink (output_file_name options)])"
    by (simp add: suffix_def)
  with run gone assms(1,2) show ?thesis
    by (simp add: preprocess_aidl_def)
qed

theorem preprocess_write_failure_witness:
  "fst (preprocess_aidl (scenario_world\<lparr>write_returns := \<lambda>i s. 5\<rparr>) preprocess_options
          Map.empty) = Returns 1 \<and>
   fst (snd (snd (preprocess_aidl (scenario_world\<lparr>write_returns := \<lambda>i s. 5\<rparr>)
          preprocess_options Map.empty))) ''pre.txt'' = None \<and>
   suffix [Close, Unlink ''pre.txt'']
     (snd (snd (snd (preprocess_aidl (scenario_world\<lparr>write_returns := \<lambda>i s. 5\<rparr>)
          preprocess_options Map.empty))))"
proof -
  let ?w = "scenario_world\<lparr>write_returns := \<lambda>i s. 5\<rparr>"
  have lines: "read_files ?w (files_to_preprocess preprocess_options) [] =
      Inr [''parcelable com.x.Foo;'' @ [newline]]"
    by (simp add: scenario_world_def preprocess_options_def preprocessed_line_def Foo_def
        Parcelable_GetPackage_def)
  have opens: "open_succeeds ?w (output_file_name preprocess_options)"
    by (simp add: scenario_world_def)
  have fails: "\<exists>k<length [''parcelable com.x.Foo;'' @ [newline]].
      write_returns ?w k ([''parcelable com.x.Foo;'' @ [newline]] ! k) \<noteq>
        int (length ([''parcelable com.x.Foo;'' @ [newline]] ! k))"
    by simp
  from preprocess_write_failure [OF lines opens fails, of Map.empty]
  show ?thesis by (simp add: preprocess_options_def)
qed

section \<open>The driver\<close>

lemma resolve_imports_keeps_error:
  "fst (resolve_imports ns w paths ts imps (1, msgs, docs)) = 1"
  by (induction imps arbitrary: msgs docs)
     (auto simp: Let_def split: option.splits prod.splits)

lemma resolve_imports_fopen:
  "resolve_imports ns (w\<lparr>fopen := g\<rparr>) paths ts imps st = resolve_imports ns w paths ts imps st"
proof (induction imps arbitrary: st)
  case Nil
  then show ?case by simp
next
  case (Cons imp imps)
  obtain err msgs docs where st: "st = (err, msgs, docs)" by (cases st)
  show ?case
    unfolding st
    by (simp add: Cons.IH Let_def split: option.splits prod.splits)
qed

lemma validate_interface_fopen:
  "validate_interface ns (w\<lparr>fopen := g\<rparr>) paths input p iface msgs ts =
   validate_interface ns w paths input p iface msgs ts"
  by (simp add: validate_interface_def resolve_imports_fopen)

lemma load_without_preprocessed_fopen:
  "load_and_validate_aidl ns (w\<lparr>fopen := g\<rparr>) [] paths input ts =
   load_and_validate_aidl ns w [] paths input ts"
  by (simp add: load_and_validate_aidl_def validate_interface_fopen
      split: option.splits AidlDocumentItem.splits)

text \<open>
  C5, as amended. When the preprocessed files loaded without error and the input parses
  as an interface whose \<^verbatim>\<open>check_filename\<close> fails, the driver still runs the loop over the
  imports, which adds its own messages, and then returns 1: the namespace is the one the
  preprocessed files left, nothing is returned to the caller, and neither the types are
  gathered nor the package, the types and the method ids checked.
\<close>

theorem filename_mismatch_stops_after_imports:
  assumes "load_preprocessed ns w pre 0 [] ts = (Returns 0, msgs0, ts0)"
    and "ParseFile w input = Some p"
    and "parsed_document p = Some (INTERFACE_TYPE_BINDER iface)"
    and "\<not> fst (check_filename (getcwd w) input (Interface_GetPackage iface) (i_name iface)
                 (i_line iface))"
  shows "load_and_validate_aidl ns w pre paths input ts =
           failed (Returns 1)
             (fst (snd (resolve_imports ns w paths ts0 (parsed_imports p)
                (1, msgs0 @ [ShouldBeDeclaredIn input (i_line iface) (i_name iface)
                               (expected_filename (Interface_GetPackage iface) (i_name iface))],
                 []))))
             ts0"
proof -
  let ?start = "(1, msgs0 @ [ShouldBeDeclaredIn input (i_line iface) (i_name iface)
                               (expected_filename (Interface_GetPackage iface) (i_name iface))],
                 [])"
  from assms(4) have cf: "check_filename (getcwd w) input (Interface_GetPackage iface)
      (i_name iface) (i_line iface) =
      (False, [ShouldBeDeclaredIn input (i_line iface) (i_name iface)
                 (expected_filename (Interface_GetPackage iface) (i_name iface))])"
    by (simp add: check_filename_def Let_def)
  obtain err2 msgs2 docs where
    ri: "resolve_imports ns w paths ts0 (parsed_imports p) ?start = (err2, msgs2, docs)"
    by (cases "resolve_imports ns w paths ts0 (parsed_imports p) ?start")
  from resolve_imports_keeps_error [of ns w paths ts0 "parsed_imports p"] ri
  have "err2 = 1" by (metis fst_conv)
  with ri cf have "validate_interface ns w paths input p iface msgs0 ts0 =
      failed (Returns 1) msgs2 ts0"
    by (simp add: validate_interface_def)
  with assms(1-3) ri show ?thesis
    by (simp add: load_and_validate_aidl_def)
qed

theorem filename_mismatch_stops_after_imports_witness:
  "load_and_validate_aidl scenario_namespace scenario_world [] [] ''wrong/Path.aidl'' builtin_types =
     failed (Returns 1) [ShouldBeDeclaredIn ''wrong/Path.aidl'' 1 ''IBad'' ''com/x/IBad.aidl'']
       builtin_types"
proof -
  let ?p = "\<lparr>parsed_document = Some (INTERFACE_TYPE_BINDER IBad), parsed_imports = []\<rparr>"
  have pre: "load_preprocessed scenario_namespace scenario_world [] 0 [] builtin_types =
      (Returns 0, [], builtin_types)"
    by simp
  have parse: "ParseFile scenario_world ''wrong/Path.aidl'' = Some ?p"
    by (simp add: scenario_world_def)
  have doc: "parsed_document ?p = Some (INTERFACE_TYPE_BINDER IBad)"
    by simp
  have pkg: "Interface_GetPackage IBad = ''com.x''" "i_name IBad = ''IBad''" "i_line IBad = 1"
    by (simp_all add: Interface_GetPackage_def IBad_def)
  have bad: "\<not> fst (check_filename (getcwd scenario_world) ''wrong/Path.aidl''
      (Interface_GetPackage IBad) (i_name IBad) (i_line IBad))"
    by (simp add: pkg scenario_world_def check_filename_def absolute_filename_def
        expected_filename_def OS_PATH_SEPARATOR_def)
  from filename_mismatch_stops_after_imports [OF pre parse doc bad, of "[]"]
  show ?thesis
    by (simp add: pkg expected_filename_def OS_PATH_SEPARATOR_def)
qed

text \<open>
  C5 as stated fails. The input \<^verbatim>\<open>wrong/Path.aidl\<close> declares \<open>com.x.IBad\<close> with the method
  \<^verbatim>\<open>oneway int doit()\<close>. The driver returns 1 with the filename message alone and the
  namespace untouched, although \<^verbatim>\<open>check_types\<close> has a message for this interface and
  \<^verbatim>\<open>gather_types\<close> would add it to the namespace.
\<close>

theorem later_phases_counterexample:
  "rc (load_and_validate_aidl scenario_namespace scenario_world [] [] ''wrong/Path.aidl''
         builtin_types) = Returns 1 \<and>
   diagnostics (load_and_validate_aidl scenario_namespace scenario_world [] []
         ''wrong/Path.aidl'' builtin_types) =
     [ShouldBeDeclaredIn ''wrong/Path.aidl'' 1 ''IBad'' ''com/x/IBad.aidl''] \<and>
   namespace (load_and_validate_aidl scenario_namespace scenario_world [] []
         ''wrong/Path.aidl'' builtin_types) = builtin_types \<and>
   fst (snd (check_types scenario_namespace ''wrong/Path.aidl'' IBad builtin_types)) =
     [OnewayCannotReturn ''wrong/Path.aidl'' 1 ''doit''] \<and>
   snd (gather_types scenario_namespace ''wrong/Path.aidl''
          (Some (INTERFACE_TYPE_BINDER IBad)) builtin_types) =
     builtin_types @ [''com.x.IBad'']"
proof -
  have pkg: "Interface_GetPackage IBad = ''com.x''" "i_name IBad = ''IBad''" "i_line IBad = 1"
    by (simp_all add: Interface_GetPackage_def IBad_def)
  have cf: "check_filename ''/src'' ''wrong/Path.aidl'' ''com.x'' ''IBad'' 1 =
      (False, [ShouldBeDeclaredIn ''wrong/Path.aidl'' 1 ''IBad'' ''com/x/IBad.aidl''])"
    by (simp add: check_filename_def absolute_filename_def expected_filename_def
        OS_PATH_SEPARATOR_def)
  have load: "load_and_validate_aidl scenario_namespace scenario_world [] []
      ''wrong/Path.aidl'' builtin_types =
      failed (Returns 1) [ShouldBeDeclaredIn ''wrong/Path.aidl'' 1 ''IBad'' ''com/x/IBad.aidl'']
        builtin_types"
    by (simp add: load_and_validate_aidl_def validate_interface_def scenario_world_def pkg cf)
  have types: "fst (snd (check_types scenario_namespace ''wrong/Path.aidl'' IBad builtin_types)) =
      [OnewayCannotReturn ''wrong/Path.aidl'' 1 ''doit'']"
    by (simp add: check_types_eq IBad_def implicit_method_def messages_of_method_def
        effectively_oneway_def)
  have gather: "snd (gather_types scenario_namespace ''wrong/Path.aidl''
          (Some (INTERFACE_TYPE_BINDER IBad)) builtin_types) = builtin_types @ [''com.x.IBad'']"
    by (simp add: scenario_namespace_def pkg qualified_name_def)
  from load types gather show ?thesis by (simp add: failed_def)
qed

section \<open>The compile tasks\<close>

lemma resolve_imports_prefix:
  "resolve_imports ns w paths ts imps (err, msgs0 @ msgs, docs) =
     (case resolve_imports ns w paths ts imps (err, msgs, docs) of
        (err', msgs', docs') \<Rightarrow> (err', msgs0 @ msgs', docs'))"
  by (induction imps arbitrary: err msgs docs)
     (auto simp: Let_def split: option.splits prod.splits)

lemma validate_interface_prefix:
  "validate_interface ns w paths input p iface msgs0 ts =
     prepend msgs0 (validate_interface ns w paths input p iface [] ts)"
proof -
  have "resolve_imports ns w paths ts imps (err, msgs0 @ msgs, []) =
     (case resolve_imports ns w paths ts imps (err, [] @ msgs, []) of
        (err', msgs', docs') \<Rightarrow> (err', msgs0 @ msgs', docs'))" for imps err msgs
    using resolve_imports_prefix [of ns w paths ts imps err msgs0 msgs "[]"] by simp
  then show ?thesis
    by (simp add: validate_interface_def prepend_def failed_def Let_def
        split: prod.splits)
qed

lemma load_after_preprocessed:
  assumes "load_preprocessed ns w pre 0 [] ts = (Returns 0, msgs0, ts0)"
  shows "load_and_validate_aidl ns w pre paths input ts =
           prepend msgs0 (load_and_validate_aidl ns w [] paths input ts0)"
  using assms validate_interface_prefix [of ns w paths input _ _ msgs0 ts0]
  by (simp add: load_and_validate_aidl_def failed_def prepend_def
      split: option.splits AidlDocumentItem.splits)

lemma load_preprocessed_fails:
  assumes "load_preprocessed ns w pre 0 [] ts = (Returns err, msgs0, ts0)" and "err \<noteq> 0"
  shows "load_and_validate_aidl ns w pre paths input ts = failed (Returns err) msgs0 ts0"
  using assms by (simp add: load_and_validate_aidl_def)

lemma generate_dep_file_preprocessed:
  "generate_dep_file w (options\<lparr>preprocessed_files := fs\<rparr>) imps = generate_dep_file w options imps"
  by (simp add: generate_dep_file_def Let_def)

lemma generate_outputFileName_preprocessed:
  "generate_outputFileName (options\<lparr>preprocessed_files := fs\<rparr>) iface =
   generate_outputFileName options iface"
  by (simp add: generate_outputFileName_def)

lemma cpp_when_load_fails:
  assumes "rc (load_and_validate_aidl ns w [] (ImportPaths options) (InputFileName options) ts) =
      Returns err" and "err \<noteq> 0"
  shows "compile_aidl_to_cpp ns GenerateCpp w options ts =
      (Returns err,
       diagnostics (load_and_validate_aidl ns w [] (ImportPaths options) (InputFileName options) ts))"
  using assms by (simp add: compile_aidl_to_cpp_def Let_def)

lemma cpp_when_load_succeeds:
  assumes "rc (load_and_validate_aidl ns w [] (ImportPaths options) (InputFileName options) ts) =
      Returns 0"
    and "returned_interface
      (load_and_validate_aidl ns w [] (ImportPaths options) (InputFileName options) ts) = Some iface"
  shows "compile_aidl_to_cpp ns GenerateCpp w options ts =
      (Returns (if GenerateCpp options
                    (namespace (load_and_validate_aidl ns w [] (ImportPaths options)
                       (InputFileName options) ts)) iface then 0 else 1),
       diagnostics (load_and_validate_aidl ns w [] (ImportPaths options) (InputFileName options) ts))"
  using assms by (simp add: compile_aidl_to_cpp_def Let_def)

lemma java_when_load_fails:
  assumes "rc (load_and_validate_aidl ns w (preprocessed_files joptions) (import_paths joptions)
      (input_file_name joptions) ts) = Returns err" and "err \<noteq> 0"
  shows "compile_aidl_to_java ns generate_java w joptions ts =
      (Returns err,
       diagnostics (load_and_validate_aidl ns w (preprocessed_files joptions)
         (import_paths joptions) (input_file_name joptions) ts), [])"
  using assms by (simp add: compile_aidl_to_java_def Let_def)

lemma java_when_load_succeeds:
  assumes "rc (load_and_validate_aidl ns w (preprocessed_files joptions) (import_paths joptions)
      (input_file_name joptions) ts) = Returns 0"
    and "returned_interface (load_and_validate_aidl ns w (preprocessed_files joptions)
      (import_paths joptions) (input_file_name joptions) ts) = Some iface"
  shows "fst (compile_aidl_to_java ns generate_java w joptions ts) =
      Returns (generate_java
        (if length (output_file_name joptions) = 0 \<and> length (output_base_folder joptions) > 0
         then generate_outputFileName joptions iface else output_file_name joptions)
        (input_file_name joptions) iface
        (namespace (load_and_validate_aidl ns w (preprocessed_files joptions)
           (import_paths joptions) (input_file_name joptions) ts)))"
  using assms by (simp add: compile_aidl_to_java_def Let_def)

lemma java_when_preprocessed_fail:
  assumes "load_preprocessed ns w (preprocessed_files joptions) 0 [] ts = (Returns err, msgs, ts')"
    and "err \<noteq> 0"
  shows "compile_aidl_to_java ns generate_java w joptions ts = (Returns err, msgs, [])"
proof -
  from assms have "load_and_validate_aidl ns w (preprocessed_files joptions) (import_paths joptions)
      (input_file_name joptions) ts = failed (Returns err) msgs ts'"
    by (simp add: load_preprocessed_fails)
  with assms(2) show ?thesis
    by (simp add: compile_aidl_to_java_def failed_def)
qed

lemma java_after_preprocessed:
  assumes "load_preprocessed ns w (preprocessed_files joptions) 0 [] ts = (Returns 0, msgs, ts')"
  shows "compile_aidl_to_java ns generate_java w joptions ts =
        (case compile_aidl_to_java ns generate_java w (joptions\<lparr>preprocessed_files := []\<rparr>) ts' of
           (r, printed_after, effects) \<Rightarrow> (r, msgs @ printed_after, effects))"
proof -
  from assms have "load_and_validate_aidl ns w (preprocessed_files joptions) (import_paths joptions)
      (input_file_name joptions) ts =
      prepend msgs (load_and_validate_aidl ns w [] (import_paths joptions)
        (input_file_name joptions) ts')"
    by (rule load_after_preprocessed)
  then show ?thesis
    by (auto simp add: compile_aidl_to_java_def prepend_def Let_def generate_dep_file_preprocessed
        generate_outputFileName_preprocessed split: outcome.splits option.splits prod.splits)
qed

text \<open>
  C10. \<^verbatim>\<open>compile_aidl_to_cpp\<close> is decided by \<^verbatim>\<open>load_and_validate_aidl\<close> called with the
  empty list of preprocessed files: it returns the error and the messages of that call
  when the call fails, and otherwise hands the interface and the namespace of that call to
  the C++ back end; so what it returns and prints does not depend on what any file opened
  with \<^verbatim>\<open>fopen\<close> holds. \<^verbatim>\<open>compile_aidl_to_java\<close> is decided in the same way by
  \<^verbatim>\<open>load_and_validate_aidl\<close> called with the preprocessed files of its options: when
  loading those files fails it returns that error with their messages, and when it
  succeeds the task runs on in the namespace they left, with their messages first.
\<close>

theorem cpp_ignores_preprocessed_files:
  "(\<forall>err.
      rc (load_and_validate_aidl ns w [] (ImportPaths options) (InputFileName options) ts) =
        Returns err \<and> err \<noteq> 0 \<longrightarrow>
      compile_aidl_to_cpp ns GenerateCpp w options ts =
        (Returns err,
         diagnostics (load_and_validate_aidl ns w [] (ImportPaths options)
           (InputFileName options) ts))) \<and>
   (\<forall>iface.
      rc (load_and_validate_aidl ns w [] (ImportPaths options) (InputFileName options) ts) =
        Returns 0 \<and>
      returned_interface (load_and_validate_aidl ns w [] (ImportPaths options)
        (InputFileName options) ts) = Some iface \<longrightarrow>
      compile_aidl_to_cpp ns GenerateCpp w options ts =
        (Returns (if GenerateCpp options
                      (namespace (load_and_validate_aidl ns w [] (ImportPaths options)
                         (InputFileName options) ts)) iface then 0 else 1),
         diagnostics (load_and_validate_aidl ns w [] (ImportPaths options)
           (InputFileName options) ts))) \<and>
   compile_aidl_to_cpp ns GenerateCpp (w\<lparr>fopen := g\<rparr>) options ts =
     compile_aidl_to_cpp ns GenerateCpp w options ts \<and>
   (\<forall>err.
      rc (load_and_validate_aidl ns w (preprocessed_files joptions) (import_paths joptions)
            (input_file_name joptions) ts) = Returns err \<and> err \<noteq> 0 \<longrightarrow>
      compile_aidl_to_java ns generate_java w joptions ts =
        (Returns err,
         diagnostics (load_and_validate_aidl ns w (preprocessed_files joptions)
           (import_paths joptions) (input_file_name joptions) ts), [])) \<and>
   (\<forall>iface.
      rc (load_and_validate_aidl ns w (preprocessed_files joptions) (import_paths joptions)
            (input_file_name joptions) ts) = Returns 0 \<and>
      returned_interface (load_and_validate_aidl ns w (preprocessed_files joptions)
        (import_paths joptions) (input_file_name joptions) ts) = Some iface \<longrightarrow>
      fst (compile_aidl_to_java ns generate_java w joptions ts) =
        Returns (generate_java
          (if length (output_file_name joptions) = 0 \<and> length (output_base_folder joptions) > 0
           then generate_outputFileName joptions iface else output_file_name joptions)
          (input_file_name joptions) iface
          (namespace (load_and_validate_aidl ns w (preprocessed_files joptions)
             (import_paths joptions) (input_file_name joptions) ts)))) \<and>
   (\<forall>err msgs ts'.
      load_preprocessed ns w (preprocessed_files joptions) 0 [] ts = (Returns err, msgs, ts') \<and>
      err \<noteq> 0 \<longrightarrow>
      compile_aidl_to_java ns generate_java w joptions ts = (Returns err, msgs, [])) \<and>
   (\<forall>msgs ts'.
      load_preprocessed ns w (preprocessed_files joptions) 0 [] ts = (Returns 0, msgs, ts') \<longrightarrow>
      compile_aidl_to_java ns generate_java w joptions ts =
        (case compile_aidl_to_java ns generate_java w (joptions\<lparr>preprocessed_files := []\<rparr>) ts' of
           (r, printed_after, effects) \<Rightarrow> (r, msgs @ printed_after, effects)))"
proof (intro conjI allI impI; (elim conjE)?)
  show "compile_aidl_to_cpp ns GenerateCpp (w\<lparr>fopen := g\<rparr>) options ts =
     compile_aidl_to_cpp ns GenerateCpp w options ts"
    by (simp add: compile_aidl_to_cpp_def load_without_preprocessed_fopen)
qed (rule cpp_when_load_fails cpp_when_load_succeeds java_when_load_fails
      java_when_load_succeeds java_when_preprocessed_fail java_after_preprocessed; assumption)+

theorem cpp_ignores_preprocessed_files_witness:
  "compile_aidl_to_cpp scenario_namespace (\<lambda>options types interface. True) scenario_world
      (cpp_options\<lparr>InputFileName := ''wrong/Path.aidl''\<rparr>) builtin_types =
     (Returns 1, [ShouldBeDeclaredIn ''wrong/Path.aidl'' 1 ''IBad'' ''com/x/IBad.aidl'']) \<and>
   compile_aidl_to_cpp scenario_namespace
      (\<lambda>options types interface.
         types = builtin_types @ [''com.x.IEcho''] \<and> map m_id (i_methods interface) = [0, 1])
      (scenario_world\<lparr>fopen := \<lambda>path. Some (''interface com.x.IEcho;'' @ [newline], False)\<rparr>)
      cpp_options builtin_types = (Returns 0, []) \<and>
   compile_aidl_to_cpp scenario_namespace (\<lambda>options types interface. False) scenario_world
      cpp_options builtin_types = (Returns 1, []) \<and>
   compile_aidl_to_java scenario_namespace (\<lambda>output input interface types. 0) scenario_world
      java_options builtin_types = (Returns 1, [CantOpenPreprocessed ''pre.txt''], [])"
proof -
  let ?checks = "\<lambda>(options :: CppOptions) types interface.
      types = builtin_types @ [''com.x.IEcho''] \<and> map m_id (i_methods interface) = [0, 1]"
  let ?g = "\<lambda>path :: string. Some (''interface com.x.IEcho;'' @ [newline], False)"
  let ?java = "\<lambda>(output :: string) (input :: string) (interface :: AidlInterface)
      (types :: string list). 0 :: int"
  have pkg: "Interface_GetPackage IEcho = ''com.x''" "i_name IEcho = ''IEcho''" "i_line IEcho = 2"
    by (simp_all add: Interface_GetPackage_def IEcho_def)
  have cf: "check_filename ''/src'' ''com/x/IEcho.aidl'' ''com.x'' ''IEcho'' 2 = (True, [])"
    by (simp add: check_filename_def absolute_filename_def expected_filename_def
        OS_PATH_SEPARATOR_def)
  have add: "AddBinderType scenario_namespace IEcho ''com/x/IEcho.aidl'' builtin_types =
      (True, builtin_types @ [''com.x.IEcho''])"
    by (simp add: scenario_namespace_def pkg qualified_name_def builtin_types_def)
  have package: "IsValidPackage scenario_namespace (builtin_types @ [''com.x.IEcho'']) ''com.x''"
    by (simp add: scenario_namespace_def)
  have types: "check_types scenario_namespace ''com/x/IEcho.aidl'' IEcho
      (builtin_types @ [''com.x.IEcho'']) = (0, [], builtin_types @ [''com.x.IEcho''])"
    by (simp add: check_types_eq calls_of_method_def IEcho_def implicit_method_def
        in_argument_def messages_of_method_def effectively_oneway_def scenario_namespace_def
        builtin_types_def IsOut_def)
  have ids: "check_and_assign_method_ids ''com/x/IEcho.aidl'' (i_methods IEcho) =
      (0, [], assign_ids 0 (i_methods IEcho))"
    by (simp add: check_and_assign_method_ids_def IEcho_def implicit_method_def)
  have good: "load_and_validate_aidl scenario_namespace scenario_world []
      (ImportPaths cpp_options) (InputFileName cpp_options) builtin_types =
      \<lparr>rc = Returns 0, diagnostics = [], namespace = builtin_types @ [''com.x.IEcho''],
       returned_interface = Some (IEcho\<lparr>i_methods := assign_ids 0 (i_methods IEcho)\<rparr>),
       returned_imports = []\<rparr>"
    by (simp add: load_and_validate_aidl_def validate_interface_def scenario_world_def
        cpp_options_def pkg cf add package types ids Let_def)
  have numbered: "map m_id (assign_ids 0 (i_methods IEcho)) = [0, 1]"
    by (simp add: IEcho_def implicit_method_def SetId_def)
  have pkg': "Interface_GetPackage IBad = ''com.x''" "i_name IBad = ''IBad''" "i_line IBad = 1"
    by (simp_all add: Interface_GetPackage_def IBad_def)
  have cf': "check_filename ''/src'' ''wrong/Path.aidl'' ''com.x'' ''IBad'' 1 =
      (False, [ShouldBeDeclaredIn ''wrong/Path.aidl'' 1 ''IBad'' ''com/x/IBad.aidl''])"
    by (simp add: check_filename_def absolute_filename_def expected_filename_def
        OS_PATH_SEPARATOR_def)
  have bad: "load_and_validate_aidl scenario_namespace scenario_world []
      (ImportPaths cpp_options) ''wrong/Path.aidl'' builtin_types =
      failed (Returns 1) [ShouldBeDeclaredIn ''wrong/Path.aidl'' 1 ''IBad'' ''com/x/IBad.aidl'']
        builtin_types"
    by (simp add: load_and_validate_aidl_def validate_interface_def scenario_world_def
        cpp_options_def pkg' cf')
  have pre: "load_preprocessed scenario_namespace scenario_world (preprocessed_files java_options)
      0 [] builtin_types = (Returns 1, [CantOpenPreprocessed ''pre.txt''], builtin_types) \<and>
      (1::int) \<noteq> 0"
    by (simp add: java_options_def parse_preprocessed_file_def scenario_world_def)
  note at_bad = cpp_ignores_preprocessed_files [where ns = scenario_namespace
      and GenerateCpp = "\<lambda>options types interface. True" and w = scenario_world and g = ?g
      and options = "cpp_options\<lparr>InputFileName := ''wrong/Path.aidl''\<rparr>"
      and ts = builtin_types and joptions = java_options and generate_java = ?java]
  note at_good = cpp_ignores_preprocessed_files [where ns = scenario_namespace
      and GenerateCpp = ?checks and w = scenario_world and g = ?g and options = cpp_options
      and ts = builtin_types and joptions = java_options and generate_java = ?java]
  note at_refusing = cpp_ignores_preprocessed_files [where ns = scenario_namespace
      and GenerateCpp = "\<lambda>options types interface. False" and w = scenario_world and g = ?g
      and options = cpp_options and ts = builtin_types and joptions = java_options
      and generate_java = ?java]
  have fails: "rc (failed (Returns 1)
        [ShouldBeDeclaredIn ''wrong/Path.aidl'' 1 ''IBad'' ''com/x/IBad.aidl''] builtin_types) =
      Returns 1 \<and> (1::int) \<noteq> 0"
    by (simp add: failed_def)
  have c1: "compile_aidl_to_cpp scenario_namespace (\<lambda>options types interface. True) scenario_world
      (cpp_options\<lparr>InputFileName := ''wrong/Path.aidl''\<rparr>) builtin_types =
     (Returns 1, [ShouldBeDeclaredIn ''wrong/Path.aidl'' 1 ''IBad'' ''com/x/IBad.aidl''])"
    using at_bad [THEN conjunct1, rule_format, of 1] fails
    by (simp add: bad failed_def)
  have ok: "rc (load_and_validate_aidl scenario_namespace scenario_world []
        (ImportPaths cpp_options) (InputFileName cpp_options) builtin_types) = Returns 0 \<and>
      returned_interface (load_and_validate_aidl scenario_namespace scenario_world []
        (ImportPaths cpp_options) (InputFileName cpp_options) builtin_types) =
        Some (IEcho\<lparr>i_methods := assign_ids 0 (i_methods IEcho)\<rparr>)"
    by (simp add: good)
  have c2: "compile_aidl_to_cpp scenario_namespace ?checks scenario_world cpp_options
      builtin_types = (Returns 0, [])"
    using at_good [THEN conjunct2, THEN conjunct1, rule_format, OF ok] numbered
    by (simp add: good)
  have c3: "compile_aidl_to_cpp scenario_namespace (\<lambda>options types interface. False)
      scenario_world cpp_options builtin_types = (Returns 1, [])"
    using at_refusing [THEN conjunct2, THEN conjunct1, rule_format, OF ok]
    by (simp add: good)
  from c1 c2 [folded at_good [THEN conjunct2, THEN conjunct2, THEN conjunct1]] c3
    at_good [THEN conjunct2, THEN conjunct2, THEN conjunct2, THEN conjunct2, THEN conjunct2,
      THEN conjunct1, rule_format, OF pre]
  show ?thesis by simp
qed

section \<open>The preprocessed file, written and read back\<close>

lemma preprocessed_line_format:
  "preprocessed_line doc = declared_kind doc @ '' '' @ declared_name doc @ '';'' @ [newline]"
  by (cases doc) (simp_all add: preprocessed_line_def declared_kind_def declared_name_def
      qualified_name_def)

lemma fgets_lines_short_line:
  "CHR 0x0A \<notin> set body \<Longrightarrow> length acc + length body + 1 < n \<Longrightarrow>
   fgets_lines n acc (body @ [CHR 0x0A]) = [acc @ body @ [CHR 0x0A]]"
  by (induction body arbitrary: acc) auto

lemma fgets_lines_full_buffer:
  "CHR 0x0A \<notin> set xs \<Longrightarrow> xs \<noteq> [] \<Longrightarrow> length acc + length xs = n - 1 \<Longrightarrow>
   fgets_lines n acc (xs @ rest) = (acc @ xs) # fgets_lines n [] rest"
proof (induction xs arbitrary: acc)
  case Nil
  then show ?case by simp
next
  case (Cons c xs)
  show ?case
  proof (cases "xs = []")
    case True
    with Cons.prems show ?thesis by simp
  next
    case False
    with Cons.prems have "length acc + 1 \<noteq> n - 1" by (cases xs) auto
    moreover from Cons.prems have "c \<noteq> CHR 0x0A" by auto
    moreover from Cons.prems False
    have "fgets_lines n (acc @ [c]) (xs @ rest) = ((acc @ [c]) @ xs) # fgets_lines n [] rest"
      by (intro Cons.IH) auto
    ultimately show ?thesis by simp
  qed
qed

lemma c_str_no_NUL: "CHR 0x00 \<notin> set s \<Longrightarrow> c_str s = s"
  by (auto simp: c_str_def takeWhile_eq_all_conv)

lemma isspace_blank [simp]: "isspace CHR '' ''" and isspace_newline [simp]: "isspace CHR 0x0A"
  by (simp_all add: isspace_def)

lemma name_char_not_stopper:
  "name_char c \<Longrightarrow> c \<notin> set [CHR '';'', CHR '' '', CHR 0x0D, CHR 0x0A, CHR 0x09]"
  by (auto simp: name_char_def isspace_def)

lemma sscanf_type_and_name:
  assumes "k \<noteq> []" and "\<forall>c\<in>set k. \<not> isspace c"
    and "Q \<noteq> []" and "\<forall>c\<in>set Q. name_char c"
    and "tail = [] \<or> hd tail = CHR '';''"
  shows "sscanf_type_fullname (k @ '' '' @ Q @ tail) = (Some k, Some Q)"
proof -
  let ?stop = "\<lambda>c. c \<notin> set [CHR '';'', CHR '' '', CHR 0x0D, CHR 0x0A, CHR 0x09]"
  from assms(1,2) have d1: "dropWhile isspace (k @ '' '' @ Q @ tail) = k @ '' '' @ Q @ tail"
    by (cases k) auto
  from assms(2) have t1: "takeWhile (\<lambda>c. \<not> isspace c) (k @ '' '' @ Q @ tail) = k"
    by (simp add: takeWhile_append2)
  from assms(2) have d2: "dropWhile (\<lambda>c. \<not> isspace c) (k @ '' '' @ Q @ tail) = '' '' @ Q @ tail"
    by (simp add: dropWhile_append2)
  from assms(3,4) have d3: "dropWhile isspace ('' '' @ Q @ tail) = Q @ tail"
    by (cases Q) (auto simp: name_char_def)
  from assms(5) have "takeWhile ?stop tail = []"
    by (cases tail) auto
  with assms(4) have t2: "takeWhile ?stop (Q @ tail) = Q"
    using name_char_not_stopper by (simp add: takeWhile_append2)
  from assms(1) show ?thesis
    unfolding sscanf_type_fullname_def d1 t1 d2 d3 t2 Let_def
    using assms(3) by simp
qed

lemma sscanf_type_only:
  assumes "k \<noteq> []" and "\<forall>c\<in>set k. \<not> isspace c"
  shows "sscanf_type_fullname (k @ [CHR 0x0A]) = (Some k, None)"
proof -
  from assms have d1: "dropWhile isspace (k @ [CHR 0x0A]) = k @ [CHR 0x0A]"
    by (cases k) auto
  from assms(2) have t1: "takeWhile (\<lambda>c. \<not> isspace c) (k @ [CHR 0x0A]) = k"
    by (simp add: takeWhile_append2)
  from assms(2) have d2: "dropWhile (\<lambda>c. \<not> isspace c) (k @ [CHR 0x0A]) = [CHR 0x0A]"
    by (simp add: dropWhile_append2)
  show ?thesis
    unfolding sscanf_type_fullname_def d1 t1 d2 Let_def
    using assms(1) by simp
qed

lemma split_any_dot: "split_any ''.'' s = split_at CHR ''.'' s"
  by (induction s) auto

lemma Join_Split_dot: "Join (Split s ''.'') CHR ''.'' = s"
  by (simp add: Split_def split_any_dot)

lemma strrchr_dot_None: "CHR ''.'' \<notin> set s \<Longrightarrow> strrchr_dot s = None"
  by (simp add: strrchr_dot_def)

lemma strrchr_dot_Some:
  assumes "CHR ''.'' \<in> set s"
  shows "\<exists>b a. strrchr_dot s = Some (b, a) \<and> s = b @ ''.'' @ a"
proof -
  let ?P = "\<lambda>c. c \<noteq> CHR ''.''"
  from assms have "dropWhile ?P (rev s) \<noteq> []"
    by (simp add: dropWhile_eq_Nil_conv)
  from hd_dropWhile [OF this] have "hd (dropWhile ?P (rev s)) = CHR ''.''"
    by simp
  with \<open>dropWhile ?P (rev s) \<noteq> []\<close>
  obtain ds where ds: "dropWhile ?P (rev s) = CHR ''.'' # ds"
    by (cases "dropWhile ?P (rev s)") auto
  have "rev s = takeWhile ?P (rev s) @ dropWhile ?P (rev s)" by simp
  with ds have "rev s = takeWhile ?P (rev s) @ CHR ''.'' # ds" by simp
  then have "rev (rev s) = rev (takeWhile ?P (rev s) @ CHR ''.'' # ds)" by (rule arg_cong)
  then have "s = rev ds @ ''.'' @ rev (takeWhile ?P (rev s))" by simp
  with assms ds show ?thesis by (simp add: strrchr_dot_def)
qed

lemma cut_fullname_name:
  assumes "Q \<noteq> []" and "hd Q \<noteq> CHR ''.''"
  shows "qualified_name (Join (snd (snd (cut_fullname Q))) CHR ''.'') (fst (snd (cut_fullname Q))) = Q"
proof (cases "CHR ''.'' \<in> set Q")
  case False
  then show ?thesis
    by (simp add: cut_fullname_def strrchr_dot_None qualified_name_def)
next
  case True
  from strrchr_dot_Some [OF True] obtain b a where
    cut: "strrchr_dot Q = Some (b, a)" and Q: "Q = b @ ''.'' @ a"
    by blast
  from assms Q have "b \<noteq> []" by (cases b) auto
  with cut Q show ?thesis
    by (simp add: cut_fullname_def Join_Split_dot qualified_name_def)
qed

lemma new_document_declared:
  assumes "kind = ''parcelable'' \<or> kind = ''interface''"
  shows "\<exists>d. new_document kind cls line pkg = Some d \<and> declared_kind d = kind \<and>
             declared_name d = qualified_name (Join pkg CHR ''.'') cls"
  using assms
  by (auto simp: new_document_def declared_kind_def declared_name_def
      Parcelable_GetPackage_def Interface_GetPackage_def)

lemma declared_kind_cases: "declared_kind doc = ''parcelable'' \<or> declared_kind doc = ''interface''"
  by (cases doc) (simp_all add: declared_kind_def)

lemma read_back_declared:
  assumes "declared_name doc \<noteq> []" and "hd (declared_name doc) \<noteq> CHR ''.''"
  shows "\<exists>d. read_back doc = Some d \<and> declared_kind d = declared_kind doc \<and>
             declared_name d = declared_name doc"
proof -
  obtain buf cls pkg where cut: "cut_fullname (declared_name doc) = (buf, cls, pkg)"
    by (cases "cut_fullname (declared_name doc)")
  from cut_fullname_name [OF assms] cut
  have "qualified_name (Join pkg CHR ''.'') cls = declared_name doc" by simp
  with new_document_declared [OF declared_kind_cases, of doc cls 1 pkg] cut
  show ?thesis by (simp add: read_back_def)
qed

lemma kind_facts:
  assumes "kind = ''parcelable'' \<or> kind = ''interface''"
  shows "kind \<noteq> []" and "\<forall>c\<in>set kind. \<not> isspace c" and "CHR 0x00 \<notin> set kind"
    and "CHR 0x0A \<notin> set kind" and "take 2 (kind @ rest) \<noteq> ''//''"
  using assms by (auto simp: isspace_def)

lemma name_char_facts:
  assumes "\<forall>c\<in>set Q. name_char c"
  shows "CHR 0x00 \<notin> set Q" and "CHR 0x0A \<notin> set Q"
  using assms by (auto simp: name_char_def isspace_def)

lemma read_first_line:
  assumes kind: "kind = ''parcelable'' \<or> kind = ''interface''"
    and Q: "Q \<noteq> []" "\<forall>c\<in>set Q. name_char c"
    and tail: "tail = [] \<or> tail = '';'' @ [CHR 0x0A]"
    and cut: "cut_fullname Q = (buf, cls, pkg)"
    and doc: "new_document kind cls (lineno st) pkg = Some d"
    and gathered: "gather_types ns file (Some d) (reader_types st) = (True, ts')"
  shows "read_line ns file (kind @ '' '' @ Q @ tail) st =
           Inr (st\<lparr>lineno := lineno st + 1, type_buf := Some kind, fullname_buf := Some buf,
                   reader_types := ts'\<rparr>)"
proof -
  let ?line = "kind @ '' '' @ Q @ tail"
  from tail have "CHR 0x00 \<notin> set tail" by auto
  with kind_facts(3) [OF kind] name_char_facts(1) [OF Q(2)]
  have cs: "c_str ?line = ?line" by (intro c_str_no_NUL) auto
  from kind_facts(1) [OF kind] have ne: "?line \<noteq> []" by simp
  from kind_facts(5) [OF kind] have nc: "take 2 ?line \<noteq> ''//''" .
  from tail have "tail = [] \<or> hd tail = CHR '';''" by auto
  from sscanf_type_and_name [OF kind_facts(1,2) [OF kind] Q this]
  have sc: "sscanf_type_fullname ?line = (Some kind, Some Q)" .
  show ?thesis
    unfolding read_line_def cs
    using ne nc sc by (simp add: cut doc gathered)
qed

text \<open>
  C7, as amended. The line \<^verbatim>\<open>preprocess_aidl\<close> writes for a declaration is its kind, a
  blank, its fully qualified name, a semicolon and a newline. When the name is not empty,
  does not start with a dot and holds no white space, semicolon or NUL, and the line is
  shorter than the reader's buffer, \<^verbatim>\<open>parse_preprocessed_file\<close> on a file that holds this
  line hands the namespace one declaration of the same kind and the same fully qualified
  name, and returns 0 when the namespace accepts it.
\<close>

theorem preprocessed_round_trip:
  assumes nonempty: "declared_name doc \<noteq> []"
    and nodot: "hd (declared_name doc) \<noteq> CHR ''.''"
    and chars: "\<forall>c\<in>set (declared_name doc). name_char c"
    and short: "length (preprocessed_line doc) < sizeof_line"
    and opened: "fopen w file = Some (preprocessed_line doc, False)"
    and accepted: "fst (gather_types ns file (read_back doc) ts)"
  shows "preprocessed_line doc =
           declared_kind doc @ '' '' @ declared_name doc @ '';'' @ [newline] \<and>
         (\<exists>d. read_back doc = Some d \<and> declared_kind d = declared_kind doc \<and>
               declared_name d = declared_name doc \<and>
               parse_preprocessed_file ns w file ts =
                 (Returns 0, [], snd (gather_types ns file (Some d) ts)))"
proof -
  let ?kind = "declared_kind doc" and ?Q = "declared_name doc"
  let ?st = "\<lparr>lineno = 1, type_buf = None, fullname_buf = None, reader_types = ts,
              reader_printed = []\<rparr>"
  note kind = declared_kind_cases [of doc]
  have line: "preprocessed_line doc = ?kind @ '' '' @ ?Q @ '';'' @ [CHR 0x0A]"
    by (simp add: preprocessed_line_format newline_def)
  from read_back_declared [OF nonempty nodot] obtain d where
    d: "read_back doc = Some d" "declared_kind d = ?kind" "declared_name d = ?Q"
    by blast
  obtain buf cls pkg where cut: "cut_fullname ?Q = (buf, cls, pkg)"
    by (cases "cut_fullname ?Q")
  with d(1) have newdoc: "new_document ?kind cls (lineno ?st) pkg = Some d"
    by (simp add: read_back_def)
  obtain ts' where g: "gather_types ns file (Some d) ts = (True, ts')"
    using accepted d(1) by (cases "gather_types ns file (Some d) ts") auto
  then have g': "gather_types ns file (Some d) (reader_types ?st) = (True, ts')"
    by simp
  have "CHR 0x0A \<notin> set (?kind @ '' '' @ ?Q @ '';'')"
    using kind_facts(4) [OF kind] name_char_facts(2) [OF chars] by simp
  moreover have "length ([] :: string) + length (?kind @ '' '' @ ?Q @ '';'') + 1 < sizeof_line"
    using short by (simp add: line)
  ultimately have "fgets_lines sizeof_line [] ((?kind @ '' '' @ ?Q @ '';'') @ [CHR 0x0A]) =
      [[] @ (?kind @ '' '' @ ?Q @ '';'') @ [CHR 0x0A]]"
    by (rule fgets_lines_short_line)
  then have lines: "fgets_lines sizeof_line [] (preprocessed_line doc) = [preprocessed_line doc]"
    by (simp add: line)
  have "'';'' @ [CHR 0x0A] = [] \<or> '';'' @ [CHR 0x0A] = '';'' @ [CHR 0x0A]" by simp
  from read_first_line [OF kind nonempty chars this cut newdoc g']
  have "read_line ns file (preprocessed_line doc) ?st =
      Inr (?st\<lparr>lineno := lineno ?st + 1, type_buf := Some ?kind, fullname_buf := Some buf,
                reader_types := ts'\<rparr>)"
    by (simp add: line)
  with opened lines g have "parse_preprocessed_file ns w file ts =
      (Returns 0, [], snd (gather_types ns file (Some d) ts))"
    by (simp add: parse_preprocessed_file_def)
  with d show ?thesis by (simp add: preprocessed_line_format)
qed

theorem preprocessed_round_trip_witness:
  "parse_preprocessed_file scenario_namespace
     (scenario_world\<lparr>fopen := \<lambda>path. Some (''parcelable com.x.Foo;'' @ [newline], False)\<rparr>)
     ''pre.txt'' builtin_types =
   (Returns 0, [], builtin_types @ [''com.x.Foo''])"
proof -
  let ?doc = "USER_DATA_TYPE Foo []"
  let ?w = "scenario_world\<lparr>fopen := \<lambda>path. Some (''parcelable com.x.Foo;'' @ [newline], False)\<rparr>"
  have name: "declared_name ?doc = ''com.x.Foo''"
    by (simp add: declared_name_def Foo_def Parcelable_GetPackage_def qualified_name_def)
  have kind: "declared_kind ?doc = ''parcelable''"
    by (simp add: declared_kind_def)
  have line: "preprocessed_line ?doc = ''parcelable com.x.Foo;'' @ [newline]"
    by (simp add: preprocessed_line_format name kind)
  have reread: "read_back ?doc =
      Some (USER_DATA_TYPE \<lparr>p_name = ''Foo'', p_line = 1, p_package = [''com'', ''x'']\<rparr> [])"
    by (simp add: read_back_def name kind cut_fullname_def strrchr_dot_def Split_def
        new_document_def)
  have added: "gather_types scenario_namespace ''pre.txt''
      (Some (USER_DATA_TYPE \<lparr>p_name = ''Foo'', p_line = 1, p_package = [''com'', ''x'']\<rparr> []))
      builtin_types = (True, builtin_types @ [''com.x.Foo''])"
    by (simp add: scenario_namespace_def Parcelable_GetPackage_def qualified_name_def
        builtin_types_def)
  have h1: "declared_name ?doc \<noteq> []" and h2: "hd (declared_name ?doc) \<noteq> CHR ''.''"
    and h3: "\<forall>c\<in>set (declared_name ?doc). name_char c"
    by (simp_all add: name name_char_def isspace_def)
  have h4: "length (preprocessed_line ?doc) < sizeof_line"
    by (simp add: line sizeof_line_def)
  have h5: "fopen ?w ''pre.txt'' = Some (preprocessed_line ?doc, False)"
    by (simp add: line)
  have h6: "fst (gather_types scenario_namespace ''pre.txt'' (read_back ?doc) builtin_types)"
    by (simp only: reread added fst_conv)
  from preprocessed_round_trip [OF h1 h2 h3 h4 h5 h6] reread added
  show ?thesis by auto
qed

lemma read_overflow_line:
  assumes B: "B \<noteq> []" "\<forall>c\<in>set B. name_char c" "hd B \<noteq> CHR ''/''"
    and buffers: "fullname_buf st = Some full0"
  shows "read_line ns file (B @ '';'' @ [CHR 0x0A]) st =
           Inl (Returns 1,
                reader_printed st @ [BadTypeInLine file (lineno st) (B @ '';'' @ [CHR 0x0A])],
                reader_types st)"
proof -
  let ?line = "B @ '';'' @ [CHR 0x0A]"
  from name_char_facts(1) [OF B(2)] have cs: "c_str ?line = ?line"
    by (intro c_str_no_NUL) auto
  from B(1) have ne: "?line \<noteq> []" by simp
  from B(1,3) have nc: "take 2 ?line \<noteq> ''//''" by (cases B) auto
  have "B @ '';'' \<noteq> []" by simp
  moreover from B(2) have "\<forall>c\<in>set (B @ '';''). \<not> isspace c"
    by (auto simp: name_char_def isspace_def)
  ultimately have "sscanf_type_fullname ((B @ '';'') @ [CHR 0x0A]) = (Some (B @ '';''), None)"
    by (rule sscanf_type_only)
  then have sc: "sscanf_type_fullname ?line = (Some (B @ '';''), None)" by simp
  have "B @ '';'' \<noteq> ''parcelable''"
  proof
    assume "B @ '';'' = ''parcelable''"
    then have "last (B @ '';'') = last ''parcelable''" by (rule arg_cong)
    then show False by simp
  qed
  moreover have "B @ '';'' \<noteq> ''interface''"
  proof
    assume "B @ '';'' = ''interface''"
    then have "last (B @ '';'') = last ''interface''" by (rule arg_cong)
    then show False by simp
  qed
  ultimately have nd: "new_document (B @ '';'') cls line pkg = None" for cls line pkg
    by (simp add: new_document_def)
  show ?thesis
    unfolding read_line_def cs
    using ne nc sc by (simp add: buffers nd split: prod.splits)
qed

lemma long_line_rejected:
  assumes A: "A \<noteq> []" "\<forall>c\<in>set A. name_char c \<and> c \<noteq> CHR ''.''"
    and full: "length (''parcelable '' @ A) = sizeof_line - 1"
    and B: "B \<noteq> []" "\<forall>c\<in>set B. name_char c" "hd B \<noteq> CHR ''/''" "length B + 2 < sizeof_line"
    and opened: "fopen w file = Some (''parcelable '' @ A @ B @ '';'' @ [CHR 0x0A], False)"
    and added: "AddParcelableType ns \<lparr>p_name = A, p_line = 1, p_package = []\<rparr> file ts = (True, ts')"
  shows "parse_preprocessed_file ns w file ts =
           (Returns 1, [BadTypeInLine file 2 (B @ '';'' @ [CHR 0x0A])], ts')"
proof -
  let ?st = "\<lparr>lineno = 1, type_buf = None, fullname_buf = None, reader_types = ts,
              reader_printed = []\<rparr>"
  let ?first = "''parcelable '' @ A" and ?second = "B @ '';'' @ [CHR 0x0A]"
  from A(2) have nl: "CHR 0x0A \<notin> set ?first"
    using name_char_facts(2) [of A] by auto
  from full have "length ([] :: string) + length ?first = sizeof_line - 1" by simp
  from fgets_lines_full_buffer [OF nl _ this, of ?second]
  have "fgets_lines sizeof_line [] (?first @ ?second) =
      ?first # fgets_lines sizeof_line [] ?second"
    by simp
  moreover have "fgets_lines sizeof_line [] ((B @ '';'') @ [CHR 0x0A]) =
      [[] @ (B @ '';'') @ [CHR 0x0A]]"
    using B(2,4) name_char_facts(2) [OF B(2)] by (intro fgets_lines_short_line) auto
  ultimately have lines: "fgets_lines sizeof_line [] (''parcelable '' @ A @ ?second) =
      [?first, ?second]"
    by simp
  from A(2) have "CHR ''.'' \<notin> set A" by auto
  then have cut: "cut_fullname A = (A, A, [])"
    by (simp add: cut_fullname_def strrchr_dot_None)
  have doc: "new_document ''parcelable'' A (lineno ?st) [] =
      Some (USER_DATA_TYPE \<lparr>p_name = A, p_line = 1, p_package = []\<rparr> [])"
    by (simp add: new_document_def)
  have g: "gather_types ns file
      (Some (USER_DATA_TYPE \<lparr>p_name = A, p_line = 1, p_package = []\<rparr> [])) (reader_types ?st) =
      (True, ts')"
    by (simp add: added)
  from A(2) have chars: "\<forall>c\<in>set A. name_char c" by simp
  have k: "''parcelable'' = ''parcelable'' \<or> ''parcelable'' = ''interface''" by simp
  have e: "([] :: string) = [] \<or> ([] :: string) = '';'' @ [CHR 0x0A]" by simp
  from read_first_line [OF k A(1) chars e cut doc g]
  have first: "read_line ns file ?first ?st =
      Inr \<lparr>lineno = 2, type_buf = Some ''parcelable'', fullname_buf = Some A,
           reader_types = ts', reader_printed = []\<rparr>"
    by simp
  have second: "read_line ns file ?second
      \<lparr>lineno = 2, type_buf = Some ''parcelable'', fullname_buf = Some A,
       reader_types = ts', reader_printed = []\<rparr> =
      Inl (Returns 1, [BadTypeInLine file 2 ?second], ts')"
    using read_overflow_line [OF B(1-3), of _ A ns "file"] by simp
  from opened lines first second show ?thesis
    by (simp add: parse_preprocessed_file_def)
qed

text \<open>
  C7 as stated fails for a long name. The line written for a parcelable whose name has
  1100 letters has 1113 bytes. The reader takes its first 1023 bytes for a line, registers
  a parcelable named by 1012 letters, takes the rest for a second line, and returns 1
  on it: the call fails and the namespace does not hold the name.
\<close>

theorem long_name_counterexample:
  "parse_preprocessed_file scenario_namespace
     (scenario_world\<lparr>fopen := \<lambda>path. Some (preprocessed_line long_parcelable, False)\<rparr>)
     ''pre.txt'' builtin_types =
   (Returns 1,
    [BadTypeInLine ''pre.txt'' 2 (replicate 88 CHR ''a'' @ '';'' @ [newline])],
    builtin_types @ [replicate 1012 CHR ''a'']) \<and>
   declared_name long_parcelable \<notin> set (builtin_types @ [replicate 1012 CHR ''a''])"
proof -
  define A where "A = replicate 1012 CHR ''a''"
  define B where "B = replicate 88 CHR ''a''"
  let ?w = "scenario_world\<lparr>fopen := \<lambda>path. Some (preprocessed_line long_parcelable, False)\<rparr>"
  have lenA: "length A = 1012" and lenB: "length B = 88"
    unfolding A_def B_def by (rule length_replicate)+
  have setA: "set A = {CHR ''a''}" and setB: "set B = {CHR ''a''}"
    unfolding A_def B_def by (simp_all only: set_replicate_conv_if) simp_all
  have "(1100::nat) = 1012 + 88" by simp
  then have cut1100: "replicate 1100 CHR ''a'' = A @ B"
    unfolding A_def B_def by (simp only: replicate_add)
  have "declared_name long_parcelable = replicate 1100 CHR ''a''"
    by (simp add: declared_name_def long_parcelable_def Parcelable_GetPackage_def
        qualified_name_def)
  with cut1100 have name: "declared_name long_parcelable = A @ B"
    by simp
  have short_names: "\<forall>s\<in>set builtin_types. length s < 1012"
    by (simp add: builtin_types_def)
  with lenA have fresh: "A \<notin> set builtin_types" by auto
  have "length (A @ B) = 1100" by (simp add: lenA lenB)
  with short_names have fresh': "A @ B \<notin> set builtin_types" by auto
  have a: "name_char CHR ''a''" by (simp add: name_char_def isspace_def)
  have h1: "A \<noteq> []" "B \<noteq> []" using lenA lenB by auto
  have h2: "\<forall>c\<in>set A. name_char c \<and> c \<noteq> CHR ''.''" "\<forall>c\<in>set B. name_char c"
    using a by (simp_all add: setA setB)
  have h3: "length (''parcelable '' @ A) = sizeof_line - 1"
    by (simp add: lenA sizeof_line_def)
  have h4: "hd B \<noteq> CHR ''/''" using h1(2) setB by (cases B) auto
  have h5: "length B + 2 < sizeof_line" by (simp add: lenB sizeof_line_def)
  have kind: "declared_kind long_parcelable = ''parcelable''"
    by (simp add: declared_kind_def long_parcelable_def)
  have line: "preprocessed_line long_parcelable = ''parcelable '' @ A @ B @ '';'' @ [CHR 0x0A]"
    by (simp add: preprocessed_line_format name kind newline_def)
  have h6: "fopen ?w ''pre.txt'' = Some (''parcelable '' @ A @ B @ '';'' @ [CHR 0x0A], False)"
    by (simp add: line)
  have h7: "AddParcelableType scenario_namespace \<lparr>p_name = A, p_line = 1, p_package = []\<rparr>
      ''pre.txt'' builtin_types = (True, builtin_types @ [A])"
    using fresh by (simp add: scenario_namespace_def Parcelable_GetPackage_def qualified_name_def)
  from long_line_rejected [OF h1(1) h2(1) h3 h1(2) h2(2) h4 h5 h6 h7]
  have run: "parse_preprocessed_file scenario_namespace ?w ''pre.txt'' builtin_types =
      (Returns 1, [BadTypeInLine ''pre.txt'' 2 (B @ '';'' @ [newline])], builtin_types @ [A])"
    by (simp only: newline_def)
  have "A @ B \<noteq> A" using h1(2) by simp
  with fresh' have absent: "declared_name long_parcelable \<notin> set (builtin_types @ [A])"
    by (simp add: name)
  from run absent show ?thesis
    unfolding A_def B_def by (rule conjI)
qed

end
